theory Spec2Isabelle
  imports Main "HOL-Library.Char_ord" "HOL-Library.List_Lexorder"
begin

text \<open>
  A shallow embedding of the Authcord redirect gateway (\<^verbatim>\<open>src/app.js\<close>): the trust
  middleware of \<^verbatim>\<open>GET /l/:code\<close>, the resolver handler with its linkbust transforms,
  the creation handler \<^verbatim>\<open>POST /l\<close> and the session issuance of \<^verbatim>\<open>POST /login\<close>.
  The source file holds two versions of the application: the richer one (lines 1 to 453,
  with the member flag, linkbust and \<^verbatim>\<open>POST /l\<close>) and the simplified one (lines 454
  to 713). The two handlers of \<^verbatim>\<open>GET /l/:code\<close> are modelled once per version;
  \<^verbatim>\<open>POST /l\<close> exists in the richer version only, and \<^verbatim>\<open>POST /login\<close> is modelled in
  its richer version, whose \<^verbatim>\<open>sessions\<close> table is the one of \<^verbatim>\<open>src/authcord.sql\<close>.

  Strings are lists of 8-bit characters; the model is exact for ASCII text. Database
  tables are lists of rows in insertion order; a query without \<^verbatim>\<open>ORDER BY\<close> scans the
  table in list order. Every call of \<^verbatim>\<open>Math.random()\<close> is one draw \<open>rnd pos\<close> from a
  sequence \<open>rnd\<close> of natural numbers, the position \<open>pos\<close> being threaded through
  the code: \<^verbatim>\<open>Math.floor(Math.random() * 62)\<close> is \<open>rnd pos mod 62\<close> and
  \<^verbatim>\<open>Math.round(Math.random())\<close> is \<open>rnd pos mod 2\<close>.
\<close>

section \<open>JavaScript strings\<close>

text \<open>
  \<^verbatim>\<open>toUpperCase\<close> and \<^verbatim>\<open>toLowerCase\<close> on the ASCII letters; every other character is
  left as it is.
\<close>

definition toUpperCase_char :: "char \<Rightarrow> char" where
  "toUpperCase_char c =
     (case map_of (zip ''abcdefghijklmnopqrstuvwxyz'' ''ABCDEFGHIJKLMNOPQRSTUVWXYZ'') c of
        None \<Rightarrow> c
      | Some u \<Rightarrow> u)"

definition toLowerCase_char :: "char \<Rightarrow> char" where
  "toLowerCase_char c =
     (case map_of (zip ''ABCDEFGHIJKLMNOPQRSTUVWXYZ'' ''abcdefghijklmnopqrstuvwxyz'') c of
        None \<Rightarrow> c
      | Some l \<Rightarrow> l)"

definition toUpperCase :: "string \<Rightarrow> string" where
  "toUpperCase s = map toUpperCase_char s"

text \<open>
  \<open>indexOf_split p s\<close> finds the leftmost occurrence of \<open>p\<close> in \<open>s\<close> and returns
  the text before it and the text after it. \<^verbatim>\<open>split\<close> and \<^verbatim>\<open>replace\<close> with a string
  pattern are both built on that search: \<^verbatim>\<open>split\<close> cuts at every occurrence found from
  left to right, \<^verbatim>\<open>replace\<close> substitutes the first occurrence only.
\<close>

fun indexOf_split :: "string \<Rightarrow> string \<Rightarrow> (string \<times> string) option" where
  "indexOf_split p [] = (if p = [] then Some ([], []) else None)"
| "indexOf_split p (c # cs) =
     (if take (length p) (c # cs) = p then Some ([], drop (length p) (c # cs))
      else (case indexOf_split p cs of
              None \<Rightarrow> None
            | Some (a, b) \<Rightarrow> Some (c # a, b)))"

lemma indexOf_split_decompose:
  "indexOf_split p s = Some (a, b) \<Longrightarrow> s = a @ p @ b"
proof (induction s arbitrary: a)
  case Nil
  then show ?case by (simp split: if_splits)
next
  case (Cons c cs)
  show ?case
  proof (cases "take (length p) (c # cs) = p")
    case True
    with Cons.prems have "a = []" and "b = drop (length p) (c # cs)" by auto
    with True show ?thesis by (metis append_Nil append_take_drop_id)
  next
    case False
    with Cons.prems obtain a' where "indexOf_split p cs = Some (a', b)" and "a = c # a'"
      by (auto split: option.splits)
    with Cons.IH show ?thesis by simp
  qed
qed

function js_split :: "string \<Rightarrow> string \<Rightarrow> string list" where
  "js_split s sep =
     (if sep = [] then map (\<lambda>c. [c]) s
      else (case indexOf_split sep s of
              None \<Rightarrow> [s]
            | Some (a, b) \<Rightarrow> a # js_split b sep))"
  by pat_completeness auto
termination
proof (relation "measure (\<lambda>(s, sep). length s)")
  show "wf (measure (\<lambda>(s, sep). length s))" by simp
next
  fix s sep :: string and x2 :: "string \<times> string" and x y :: string
  assume "sep \<noteq> []" and "indexOf_split sep s = Some x2" and "(x, y) = x2"
  then have "s = x @ sep @ y" by (simp add: indexOf_split_decompose)
  with \<open>sep \<noteq> []\<close> show "((y, sep), (s, sep)) \<in> measure (\<lambda>(s, sep). length s)"
    by simp
qed

declare js_split.simps [simp del]

text \<open>
  \<^verbatim>\<open>s.replace(p, r)\<close> with a string pattern. The replacement text is inserted literally:
  the model does not interpret \<^verbatim>\<open>$\<close> patterns, which the strings produced by \<open>rs\<close>
  never contain.
\<close>

definition js_replace :: "string \<Rightarrow> string \<Rightarrow> string \<Rightarrow> string" where
  "js_replace s p r =
     (case indexOf_split p s of None \<Rightarrow> s | Some (a, b) \<Rightarrow> a @ r @ b)"

text \<open>
  Replacing the first occurrence by a text free of the pattern's first and last
  character, and no shorter than the pattern, removes exactly one piece of the split.
  This is what makes the \<^verbatim>\<open>RANDOM\<close> loop below terminate.
\<close>

lemma indexOf_split_skip:
  assumes "p \<noteq> []" "hd p \<notin> set r"
  shows "indexOf_split p (r @ b) = map_option (\<lambda>(x, y). (r @ x, y)) (indexOf_split p b)"
  using assms
proof (induction r)
  case Nil
  then show ?case by (simp add: option.map_ident case_prod_unfold)
next
  case (Cons c r)
  then have "take (length p) (c # r @ b) \<noteq> p"
    by (cases p) auto
  with Cons show ?case by (auto split: option.splits)
qed

lemma indexOf_split_replace:
  assumes "indexOf_split p s = Some (a, b)" and "p \<noteq> []" and "hd p \<notin> set r"
    and "last p \<notin> set r" and "length p \<le> length r"
  shows "indexOf_split p (a @ r @ b) =
           map_option (\<lambda>(x, y). (a @ r @ x, y)) (indexOf_split p b)"
  using assms(1)
proof (induction s arbitrary: a)
  case Nil
  with assms(2) show ?case by simp
next
  case (Cons c cs)
  show ?case
  proof (cases "take (length p) (c # cs) = p")
    case True
    with Cons.prems have "a = []" by simp
    then show ?thesis using indexOf_split_skip[OF assms(2,3), of b] by simp
  next
    case False
    with Cons.prems obtain a' where a': "indexOf_split p cs = Some (a', b)" "a = c # a'"
      by (auto split: option.splits)
    have cs: "cs = a' @ p @ b" using a'(1) indexOf_split_decompose by blast
    have "take (length p) (c # a' @ r @ b) \<noteq> p"
    proof
      assume eq: "take (length p) (c # a' @ r @ b) = p"
      show False
      proof (cases "length p \<le> length (c # a')")
        case True
        then have "take (length p) (c # a' @ r @ b) = take (length p) (c # a')"
          using take_append[of "length p" "c # a'" "r @ b"] by simp
        also have "\<dots> = take (length p) (c # cs)"
          using True cs take_append[of "length p" "c # a'" "p @ b"] by simp
        finally show False using eq False by simp
      next
        case False
        define k where "k = length p - length (c # a')"
        have k: "0 < k" "k \<le> length r" using False assms(5) by (auto simp: k_def)
        have "take (length p) ((c # a') @ r @ b) = (c # a') @ take k r"
          using False k take_append[of "length p" "c # a'" "r @ b"] by (simp add: k_def)
        with eq have p: "p = (c # a') @ take k r" by simp
        have "take k r \<noteq> []" using k by auto
        with p have "last p = last (take k r)" by simp
        also have "\<dots> \<in> set (take k r)" using \<open>take k r \<noteq> []\<close> last_in_set by blast
        finally have "last p \<in> set r" using set_take_subset by fastforce
        with assms(4) show False by simp
      qed
    qed
    then show ?thesis using Cons.IH[OF a'(1)] a' by (auto split: option.splits)
  qed
qed

lemma js_split_replace_length:
  assumes "p \<noteq> []" and "hd p \<notin> set r" and "last p \<notin> set r" and "length p \<le> length r"
  shows "length (js_split (js_replace s p r) p) =
           (case indexOf_split p s of None \<Rightarrow> length (js_split s p)
            | Some _ \<Rightarrow> length (js_split s p) - 1)"
proof (cases "indexOf_split p s")
  case None
  then show ?thesis by (simp add: js_replace_def)
next
  case (Some ab)
  obtain a b where ab: "ab = (a, b)" by (cases ab)
  have l: "length (js_split s p) = Suc (length (js_split b p))"
    using Some ab assms(1) by (subst js_split.simps) simp
  have "js_replace s p r = a @ r @ b" using Some ab by (simp add: js_replace_def)
  moreover have "length (js_split (a @ r @ b) p) = length (js_split b p)"
    using indexOf_split_replace[OF Some[unfolded ab] assms] assms(1)
    by (subst js_split.simps, subst (2) js_split.simps) (auto split: option.splits)
  ultimately show ?thesis using Some l by simp
qed

definition js_join :: "string list \<Rightarrow> string \<Rightarrow> string" where
  "js_join xs sep = concat (case xs of [] \<Rightarrow> [] | y # ys \<Rightarrow> y # map (\<lambda>z. sep @ z) ys)"


section \<open>The random source and the code generator\<close>

definition characters :: string where
  "characters = ''ABCDEFGHIJKLMNOPQRSTUVWXYZabcdefghijklmnopqrstuvwxyz0123456789''"

fun rs :: "nat \<Rightarrow> (nat \<Rightarrow> nat) \<Rightarrow> nat \<Rightarrow> string \<times> nat" where
  "rs 0 rnd pos = ([], pos)"
| "rs (Suc n) rnd pos =
     (let c = characters ! (rnd pos mod length characters);
          (rest, pos') = rs n rnd (Suc pos)
      in (c # rest, pos'))"

lemma characters_length: "length characters = 62" by (simp add: characters_def)

lemma characters_no_percent: "CHR ''%'' \<notin> set characters" by (simp add: characters_def)

lemma rs_snd: "snd (rs n rnd pos) = pos + n"
proof (induction n arbitrary: pos)
  case 0
  then show ?case by simp
next
  case (Suc n)
  from Suc[of "Suc pos"] show ?case by (cases "rs n rnd (Suc pos)") (simp add: Let_def)
qed

lemma rs_length: "length (fst (rs n rnd pos)) = n"
proof (induction n arbitrary: pos)
  case 0
  then show ?case by simp
next
  case (Suc n)
  from Suc[of "Suc pos"] show ?case by (cases "rs n rnd (Suc pos)") (simp add: Let_def)
qed

lemma rs_no_percent: "CHR ''%'' \<notin> set (fst (rs n rnd pos))"
proof (induction n arbitrary: pos)
  case 0
  then show ?case by simp
next
  case (Suc n)
  have "characters ! (rnd pos mod length characters) \<in> set characters"
    by (simp add: characters_length)
  then have "characters ! (rnd pos mod length characters) \<noteq> CHR ''%''"
    using characters_no_percent by metis
  with Suc[of "Suc pos"] show ?case by (auto simp: Let_def split: prod.splits)
qed

section \<open>Linkbust transforms\<close>

text \<open>
  The \<^verbatim>\<open>RANDOM\<close> case: the loop bound \<^verbatim>\<open>destination.split("%RAN%").length\<close> is read again
  on every iteration, from the destination as changed so far.
\<close>

function random_loop :: "(nat \<Rightarrow> nat) \<Rightarrow> nat \<Rightarrow> string \<Rightarrow> nat \<Rightarrow> string \<times> nat" where
  "random_loop rnd i destination pos =
     (if i < length (js_split destination ''%RAN%'')
      then (let (ran, pos') = rs 5 rnd pos
            in random_loop rnd (Suc i) (js_replace destination ''%RAN%'' ran) pos')
      else (destination, pos))"
  by pat_completeness auto
termination
proof (relation "measure (\<lambda>(rnd, i, destination, pos). length (js_split destination ''%RAN%'') - i)")
  show "wf (measure (\<lambda>(rnd, i, destination, pos). length (js_split destination ''%RAN%'') - i))"
    by simp
next
  fix rnd :: "nat \<Rightarrow> nat" and i pos pos' :: nat and destination ran :: string
    and x :: "string \<times> nat"
  assume lt: "i < length (js_split destination ''%RAN%'')"
    and x: "x = rs 5 rnd pos" and "(ran, pos') = x"
  then have ran: "ran = fst (rs 5 rnd pos)" by (metis fst_conv)
  have "length (js_split (js_replace destination ''%RAN%'' ran) ''%RAN%'')
          \<le> length (js_split destination ''%RAN%'')"
    using js_split_replace_length[of "''%RAN%''" ran destination]
      rs_no_percent[of 5 rnd pos] rs_length[of 5 rnd pos] ran
    by (simp split: option.splits)
  with lt show "((rnd, Suc i, js_replace destination ''%RAN%'' ran, pos'), (rnd, i, destination, pos))
      \<in> measure (\<lambda>(rnd, i, destination, pos). length (js_split destination ''%RAN%'') - i)"
    by simp
qed

declare random_loop.simps [simp del]

text \<open>The loop bound: the length of \<^verbatim>\<open>destination.split("%RAN%")\<close>.\<close>

definition pieces :: "string \<Rightarrow> nat" where
  "pieces s = length (js_split s ''%RAN%'')"

text \<open>The \<^verbatim>\<open>CAPITALS\<close> case: one draw for every character, from left to right.\<close>

fun capitals :: "string \<Rightarrow> (nat \<Rightarrow> nat) \<Rightarrow> nat \<Rightarrow> string \<times> nat" where
  "capitals [] rnd pos = ([], pos)"
| "capitals (v # vs) rnd pos =
     (let v' = (if rnd pos mod 2 \<noteq> 0 then toUpperCase_char v else toLowerCase_char v);
          (rest, pos') = capitals vs rnd (Suc pos)
      in (v' # rest, pos'))"

text \<open>
  The platform functions the handlers call and the repository does not define, taken as
  parameters: the \<^verbatim>\<open>URL\<close> class (\<open>url_new\<close> is the constructor, \<open>None\<close> when it throws
  its \<^verbatim>\<open>TypeError\<close> on a text that is not an absolute URL), \<^verbatim>\<open>JSON.parse\<close> (\<open>None\<close> when
  it throws its \<^verbatim>\<open>SyntaxError\<close>), \<^verbatim>\<open>JSON.stringify\<close> and \<^verbatim>\<open>bcrypt.compare\<close>.
\<close>

datatype json = JNull | JBool bool | JNum int | JStr string | JArr "json list"
  | JObj "(string \<times> json) list"

record 'u platform =
  url_new :: "string \<Rightarrow> 'u option"
  url_searchParams_append :: "'u \<Rightarrow> string \<Rightarrow> string \<Rightarrow> 'u"
  url_href :: "'u \<Rightarrow> string"
  json_parse :: "string \<Rightarrow> json option"
  json_stringify :: "json \<Rightarrow> string"
  bcrypt_compare :: "string \<Rightarrow> string \<Rightarrow> bool"

datatype error = TypeError | SyntaxError | DbError | UnhandledRejection

text \<open>The \<^verbatim>\<open>CACHEBUST\<close> case.\<close>

definition cachebust ::
  "'u platform \<Rightarrow> string \<Rightarrow> (nat \<Rightarrow> nat) \<Rightarrow> nat \<Rightarrow> error + string \<times> nat" where
  "cachebust P destination rnd pos =
     (case url_new P destination of
        None \<Rightarrow> Inl TypeError
      | Some url \<Rightarrow>
          (let (ranKey, pos1) = rs 5 rnd pos;
               (ranVal, pos2) = rs 5 rnd pos1
           in Inr (url_href P (url_searchParams_append P url ranKey ranVal), pos2)))"

text \<open>The \<^verbatim>\<open>switch\<close> on the technique name; a name with no case leaves the destination.\<close>

definition apply_technique ::
  "'u platform \<Rightarrow> string \<Rightarrow> string \<Rightarrow> (nat \<Rightarrow> nat) \<Rightarrow> nat \<Rightarrow> error + string \<times> nat" where
  "apply_technique P technique destination rnd pos =
     (if technique = ''CAPITALS'' then Inr (capitals destination rnd pos)
      else if technique = ''CACHEBUST'' then cachebust P destination rnd pos
      else if technique = ''RANDOM'' then Inr (random_loop rnd 0 destination pos)
      else Inr (destination, pos))"

text \<open>The \<^verbatim>\<open>for (const technique of techniques)\<close> loop; a throw ends it.\<close>

fun apply_techniques ::
  "'u platform \<Rightarrow> string list \<Rightarrow> string \<Rightarrow> (nat \<Rightarrow> nat) \<Rightarrow> nat \<Rightarrow> error + string \<times> nat" where
  "apply_techniques P [] destination rnd pos = Inr (destination, pos)"
| "apply_techniques P (technique # techniques) destination rnd pos =
     (case apply_technique P technique destination rnd pos of
        Inl e \<Rightarrow> Inl e
      | Inr (destination', pos') \<Rightarrow> apply_techniques P techniques destination' rnd pos')"

text \<open>
  \<^verbatim>\<open>if (shortlink.linkbust) { const techniques = shortlink.linkbust.split("|") ... }\<close>:
  the list of technique names the loop runs over, empty when the column is
  \<^verbatim>\<open>NULL\<close> or the empty string.
\<close>

definition techniques_of :: "string option \<Rightarrow> string list" where
  "techniques_of linkbust =
     (case linkbust of
        None \<Rightarrow> []
      | Some l \<Rightarrow> if l = [] then [] else js_split l ''|'')"

section \<open>The database\<close>

record user =
  u_id :: int
  u_email :: string
  u_member :: int
  u_password :: string

record session =
  s_id :: string
  s_user_id :: int
  s_user_agent :: string

record saved_session =
  ss_id :: string
  ss_user_id :: int
  ss_user_agent :: string
  ss_ip_address :: string

record ip_grant =
  ip_user_id :: int
  ip_address :: string

record shortlink =
  sl_id :: int
  sl_code :: string
  sl_method :: string
  sl_data :: "string option"
  sl_linkbust :: "string option"
  sl_destination :: string

text \<open>The value of \<^verbatim>\<open>req.method_value\<close>: a user id, or the text of a cookie or address.\<close>

datatype auth_value = IdValue int | TextValue string

record outbound_row =
  ob_ip_address :: string
  ob_user_agent :: "string option"
  ob_code :: string
  ob_auth_method :: "string option"
  ob_auth_value :: "auth_value option"

record dynamic_url =
  du_user_id :: "int option"
  du_full_url :: string

record database =
  users :: "user list"
  sessions :: "session list"
  saved_sessions :: "saved_session list"
  ips :: "ip_grant list"
  shortlinks :: "shortlink list"
  outbound :: "outbound_row list"
  dynamic_urls :: "dynamic_url list"

text \<open>\<^verbatim>\<open>.first()\<close>: the first row of the result, \<^verbatim>\<open>undefined\<close> (\<open>None\<close>) when empty.\<close>

definition first :: "'a list \<Rightarrow> 'a option" where
  "first rows = (case rows of [] \<Rightarrow> None | row # _ \<Rightarrow> Some row)"

section \<open>The request\<close>

text \<open>
  What the handlers read of the request: \<^verbatim>\<open>req.session.user\<close> (the \<^verbatim>\<open>users\<close> row stored
  at login), \<^verbatim>\<open>req.cookies.sessionId\<close>, \<^verbatim>\<open>req.ip\<close> (a string, possibly empty),
  the \<^verbatim>\<open>user-agent\<close> header and \<^verbatim>\<open>req.params.code\<close>; \<open>None\<close> is \<^verbatim>\<open>undefined\<close>.
\<close>

record request =
  session_user :: "user option"
  cookies_sessionId :: "string option"
  ip :: string
  user_agent :: "string option"
  params_code :: string

text \<open>Truthiness of an optional string: \<^verbatim>\<open>undefined\<close> and the empty string are falsy.\<close>

definition truthy_str :: "string option \<Rightarrow> bool" where
  "truthy_str v = (case v of None \<Rightarrow> False | Some s \<Rightarrow> s \<noteq> [])"

section \<open>The trust middleware of \<^verbatim>\<open>GET /l/:code\<close>\<close>

text \<open>
  What the middleware leaves behind: the three request fields it assigns
  (\<^verbatim>\<open>undefined\<close> is \<open>None\<close>), whether it called \<^verbatim>\<open>res.clearCookie("sessionId")\<close>, and
  the database queries it issued, in order.
\<close>

datatype query = SessionQuery string | IpQuery "string option"

record trust_state =
  method_name :: "string option"
  method_value :: "auth_value option"
  user_id :: "int option"
  cleared_cookie :: bool
  queries :: "query list"

datatype outcome = Next | Status401

definition init_state :: trust_state where
  "init_state = \<lparr>method_name = None, method_value = None, user_id = None,
                  cleared_cookie = False, queries = []\<rparr>"

subsection \<open>The richer version (lines 71 to 122)\<close>

text \<open>
  The joined lookups: \<^verbatim>\<open>users\<close> inner join \<^verbatim>\<open>sessions\<close> on the user id, filtered by the
  session id; \<^verbatim>\<open>users\<close> inner join \<^verbatim>\<open>ips\<close>, filtered by the address. Neither query
  has an \<^verbatim>\<open>ORDER BY\<close>: the rows come in the order of the table the \<^verbatim>\<open>WHERE\<close> clause
  restricts (\<^verbatim>\<open>sessions\<close>, \<^verbatim>\<open>ips\<close>), each row of it with its user, and \<^verbatim>\<open>first()\<close>
  takes the first. So of several grants of one address the one stored first decides. The
  address looked up is \<^verbatim>\<open>req.ip || null\<close>, and \<^verbatim>\<open>null\<close> equals no stored address.
\<close>

definition session_join :: "database \<Rightarrow> string \<Rightarrow> (user \<times> session) option" where
  "session_join db sid =
     first (concat (map (\<lambda>s. map (\<lambda>u. (u, s)) (filter (\<lambda>u. u_id u = s_user_id s) (users db)))
                      (filter (\<lambda>s. s_id s = sid) (sessions db))))"

definition ip_join :: "database \<Rightarrow> string option \<Rightarrow> (user \<times> ip_grant) option" where
  "ip_join db a =
     first (concat (map (\<lambda>g. map (\<lambda>u. (u, g)) (filter (\<lambda>u. u_id u = ip_user_id g) (users db)))
                      (filter (\<lambda>g. Some (ip_address g) = a) (ips db))))"

definition ip_or_null :: "request \<Rightarrow> string option" where
  "ip_or_null req = (if ip req = [] then None else Some (ip req))"

definition ip_tier_richer :: "database \<Rightarrow> request \<Rightarrow> trust_state \<Rightarrow> outcome \<times> trust_state" where
  "ip_tier_richer db req st =
     (let a = ip_or_null req;
          st' = st\<lparr>queries := queries st @ [IpQuery a]\<rparr>
      in case ip_join db a of
           None \<Rightarrow> (Status401, st')
         | Some (u, g) \<Rightarrow>
             if u_member u \<noteq> 0
             then (Next, st'\<lparr>method_name := Some ''IP'',
                             method_value := Some (TextValue (ip req)),
                             user_id := Some (u_id u)\<rparr>)
             else (Status401, st'))"

definition cookie_tier_richer :: "database \<Rightarrow> request \<Rightarrow> trust_state \<Rightarrow> outcome \<times> trust_state" where
  "cookie_tier_richer db req st =
     (case cookies_sessionId req of
        None \<Rightarrow> ip_tier_richer db req st
      | Some c \<Rightarrow>
          if c = [] then ip_tier_richer db req st
          else (let st' = st\<lparr>queries := queries st @ [SessionQuery c]\<rparr>
                in case session_join db c of
                     None \<Rightarrow> ip_tier_richer db req (st'\<lparr>cleared_cookie := True\<rparr>)
                   | Some (u, s) \<Rightarrow>
                       if u_member u \<noteq> 0
                       then (Next, st'\<lparr>method_name := Some ''SESSION'',
                                       method_value := Some (TextValue c),
                                       user_id := Some (u_id u)\<rparr>)
                       else ip_tier_richer db req st'))"

definition trust_richer :: "database \<Rightarrow> request \<Rightarrow> outcome \<times> trust_state" where
  "trust_richer db req =
     (case session_user req of
        None \<Rightarrow> cookie_tier_richer db req init_state
      | Some u \<Rightarrow>
          (let st = init_state\<lparr>method_name := Some ''USER'',
                               method_value := Some (IdValue (u_id u)),
                               user_id := Some (u_id u)\<rparr>
           in if u_member u \<noteq> 0 then (Next, st) else cookie_tier_richer db req st))"

subsection \<open>The simplified version (lines 523 to 553)\<close>

text \<open>
  This version assigns \<^verbatim>\<open>req.method\<close> (here \<open>method_name\<close>) and \<^verbatim>\<open>req.method_value\<close>
  only, looks the cookie up in \<^verbatim>\<open>sessions\<close> alone and the address in \<^verbatim>\<open>ips\<close> alone;
  its session identifier column \<^verbatim>\<open>session_id\<close> is the field \<open>s_id\<close>.
\<close>

definition ip_tier_simplified :: "database \<Rightarrow> request \<Rightarrow> trust_state \<Rightarrow> outcome \<times> trust_state" where
  "ip_tier_simplified db req st =
     (let st' = st\<lparr>queries := queries st @ [IpQuery (Some (ip req))]\<rparr>
      in case first (filter (\<lambda>g. ip_address g = ip req) (ips db)) of
           None \<Rightarrow> (Status401, st')
         | Some g \<Rightarrow> (Next, st'\<lparr>method_name := Some ''IP'',
                                 method_value := Some (TextValue (ip req))\<rparr>))"

definition cookie_tier_simplified ::
  "database \<Rightarrow> request \<Rightarrow> trust_state \<Rightarrow> outcome \<times> trust_state" where
  "cookie_tier_simplified db req st =
     (case cookies_sessionId req of
        None \<Rightarrow> ip_tier_simplified db req st
      | Some c \<Rightarrow>
          if c = [] then ip_tier_simplified db req st
          else (let st' = st\<lparr>queries := queries st @ [SessionQuery c]\<rparr>
                in case first (filter (\<lambda>s. s_id s = c) (sessions db)) of
                     None \<Rightarrow> ip_tier_simplified db req (st'\<lparr>cleared_cookie := True\<rparr>)
                   | Some s \<Rightarrow> (Next, st'\<lparr>method_name := Some ''SESSION'',
                                           method_value := Some (TextValue c)\<rparr>)))"

definition trust_simplified :: "database \<Rightarrow> request \<Rightarrow> outcome \<times> trust_state" where
  "trust_simplified db req =
     (case session_user req of
        None \<Rightarrow> cookie_tier_simplified db req init_state
      | Some u \<Rightarrow> (Next, init_state\<lparr>method_name := Some ''USER'',
                                     method_value := Some (IdValue (u_id u))\<rparr>))"

section \<open>The resolver handler of \<^verbatim>\<open>GET /l/:code\<close>\<close>

datatype response =
    Redirect string
  | Render nat string
  | RenderError nat string string
  | RenderPostlink json string
  | JsonError nat string
  | JsonCreated string json

text \<open>
  \<^verbatim>\<open>knex("shortlinks").where("code", code).orderBy("id", "DESC").first()\<close>: the rows
  of that code, sorted by descending id, and the first of them.
\<close>

definition select_shortlink :: "shortlink list \<Rightarrow> string \<Rightarrow> shortlink option" where
  "select_shortlink table code =
     first (sort_key (\<lambda>row. - sl_id row) (filter (\<lambda>row. sl_code row = code) table))"

text \<open>\<^verbatim>\<open>JSON.parse(shortlink.data)\<close>; \<^verbatim>\<open>JSON.parse(null)\<close> is \<^verbatim>\<open>null\<close>.\<close>

definition parse_data :: "'u platform \<Rightarrow> string option \<Rightarrow> json option" where
  "parse_data P d = (case d of None \<Rightarrow> Some JNull | Some text \<Rightarrow> json_parse P text)"

definition deliver :: "'u platform \<Rightarrow> shortlink \<Rightarrow> string \<Rightarrow> error + response" where
  "deliver P sl destination =
     (if sl_method sl = ''GET'' then Inr (Redirect destination)
      else (case parse_data P (sl_data sl) of
              None \<Rightarrow> Inl SyntaxError
            | Some d \<Rightarrow> Inr (RenderPostlink d destination)))"

definition outbound_of :: "request \<Rightarrow> trust_state \<Rightarrow> outbound_row" where
  "outbound_of req st =
     \<lparr>ob_ip_address = ip req, ob_user_agent = user_agent req, ob_code = params_code req,
      ob_auth_method = method_name st, ob_auth_value = method_value st\<rparr>"

subsection \<open>The richer version (lines 123 to 194)\<close>

text \<open>
  The handler's own steps. The two audit inserts are promises the handler does not
  await: \<open>outbound_ok\<close> and \<open>dynamic_ok\<close> say whether each insert succeeds, for whatever
  reason the database has, and a row is written when it does. The handler never reads
  the promises; what a rejected one does to the process that runs the handler is
  \<open>serve_richer\<close>, below.
\<close>

definition resolve_richer ::
  "'u platform \<Rightarrow> (nat \<Rightarrow> nat) \<Rightarrow> nat \<Rightarrow> database \<Rightarrow> request \<Rightarrow> trust_state \<Rightarrow> bool \<Rightarrow> bool
     \<Rightarrow> (error + response) \<times> database" where
  "resolve_richer P rnd pos db req st outbound_ok dynamic_ok =
     (let db1 = (if outbound_ok then db\<lparr>outbound := outbound db @ [outbound_of req st]\<rparr> else db)
      in case select_shortlink (shortlinks db1) (params_code req) of
           None \<Rightarrow> (Inr (Render 200 ''404.handlebars''), db1)
         | Some sl \<Rightarrow>
             (case apply_techniques P (techniques_of (sl_linkbust sl)) (sl_destination sl) rnd pos of
                Inl e \<Rightarrow> (Inl e, db1)
              | Inr (destination, pos') \<Rightarrow>
                  (let row = \<lparr>du_user_id = user_id st, du_full_url = destination\<rparr>;
                       db2 = (if dynamic_ok
                              then db1\<lparr>dynamic_urls := dynamic_urls db1 @ [row]\<rparr> else db1)
                   in (deliver P sl destination, db2))))"

text \<open>
  The promises of the two audit inserts carry a \<^verbatim>\<open>then\<close> and no \<^verbatim>\<open>catch\<close> (lines 126 to
  136 and 177 to 184; the insert of \<^verbatim>\<open>POST /l\<close>, lines 271 to 284, has one). A rejected
  insert is therefore an unhandled rejection, and the runtime decides what follows: from
  Node 15 on it is raised as an uncaught exception and the process exits (\<open>ThrowMode\<close>,
  the default), before that a warning is printed (\<open>WarnMode\<close>).

  The outbound insert is sent before the shortlink lookup the handler awaits, and its
  rejection is taken to be settled first: in \<open>ThrowMode\<close> the process exits while the
  handler waits, and nothing is delivered. The \<^verbatim>\<open>dynamic_urls\<close> insert is sent right before
  the handler calls \<^verbatim>\<open>res.redirect\<close> or \<^verbatim>\<open>res.render\<close>: in \<open>ThrowMode\<close> the process
  exits after that call. The third component of the result says whether the process
  exited.
\<close>

datatype unhandled_rejections = ThrowMode | WarnMode

definition dynamic_dispatched ::
  "'u platform \<Rightarrow> (nat \<Rightarrow> nat) \<Rightarrow> nat \<Rightarrow> database \<Rightarrow> request \<Rightarrow> bool" where
  "dynamic_dispatched P rnd pos db req =
     (case select_shortlink (shortlinks db) (params_code req) of
        None \<Rightarrow> False
      | Some sl \<Rightarrow>
          (case apply_techniques P (techniques_of (sl_linkbust sl)) (sl_destination sl) rnd pos of
             Inl e \<Rightarrow> False
           | Inr r \<Rightarrow> True))"

definition serve_richer ::
  "unhandled_rejections \<Rightarrow> 'u platform \<Rightarrow> (nat \<Rightarrow> nat) \<Rightarrow> nat \<Rightarrow> database \<Rightarrow> request \<Rightarrow> trust_state
     \<Rightarrow> bool \<Rightarrow> bool \<Rightarrow> (error + response) \<times> database \<times> bool" where
  "serve_richer mode P rnd pos db req st outbound_ok dynamic_ok =
     (if mode = ThrowMode \<and> \<not> outbound_ok then (Inl UnhandledRejection, db, True)
      else (let (result, db') = resolve_richer P rnd pos db req st outbound_ok dynamic_ok
            in (result, db',
                mode = ThrowMode \<and> \<not> dynamic_ok \<and> dynamic_dispatched P rnd pos db req)))"

subsection \<open>The simplified version (lines 554 to 580)\<close>

text \<open>
  Here the outbound insert is awaited: when it fails the handler throws before it looks
  the shortlink up. There is no linkbust and no \<^verbatim>\<open>dynamic_urls\<close> row.
\<close>

definition resolve_simplified ::
  "'u platform \<Rightarrow> database \<Rightarrow> request \<Rightarrow> trust_state \<Rightarrow> bool \<Rightarrow> (error + response) \<times> database" where
  "resolve_simplified P db req st outbound_ok =
     (if \<not> outbound_ok then (Inl DbError, db)
      else (let db1 = db\<lparr>outbound := outbound db @ [outbound_of req st]\<rparr>
            in case select_shortlink (shortlinks db1) (params_code req) of
                 None \<Rightarrow> (Inr (Render 200 ''404.handlebars''), db1)
               | Some sl \<Rightarrow> (deliver P sl (sl_destination sl), db1)))"

section \<open>The creation handler \<^verbatim>\<open>POST /l\<close> (lines 197 to 290)\<close>

text \<open>
  The fields of the parsed body are JavaScript values: \<open>None\<close> is \<^verbatim>\<open>undefined\<close>.
\<close>

record body =
  b_code :: "json option"
  b_method :: "json option"
  b_destination :: "json option"
  b_data :: "json option"
  b_linkbust :: "json option"

fun truthy :: "json \<Rightarrow> bool" where
  "truthy JNull = False"
| "truthy (JBool b) = b"
| "truthy (JNum n) = (n \<noteq> 0)"
| "truthy (JStr s) = (s \<noteq> [])"
| "truthy (JArr xs) = True"
| "truthy (JObj kvs) = True"

definition truthy_opt :: "json option \<Rightarrow> bool" where
  "truthy_opt v = (case v of None \<Rightarrow> False | Some j \<Rightarrow> truthy j)"

text \<open>\<^verbatim>\<open>typeof v === "object"\<close>: true of \<^verbatim>\<open>null\<close>, arrays and objects.\<close>

fun typeof_object :: "json \<Rightarrow> bool" where
  "typeof_object JNull = True"
| "typeof_object (JArr xs) = True"
| "typeof_object (JObj kvs) = True"
| "typeof_object v = False"

text \<open>
  \<^verbatim>\<open>req.body.linkbust.map(lb => lb.toUpperCase())\<close>: an element that is not a string has
  no \<^verbatim>\<open>toUpperCase\<close> and the call throws a \<^verbatim>\<open>TypeError\<close>.
\<close>

fun map_toUpperCase :: "json list \<Rightarrow> error + string list" where
  "map_toUpperCase [] = Inr []"
| "map_toUpperCase (JStr lb # rest) =
     (case map_toUpperCase rest of Inl e \<Rightarrow> Inl e | Inr ys \<Rightarrow> Inr (toUpperCase lb # ys))"
| "map_toUpperCase (v # rest) = Inl TypeError"

text \<open>The three \<^verbatim>\<open>includes\<close> tests with their \<^verbatim>\<open>push\<close>, then \<^verbatim>\<open>join("|")\<close>.\<close>

definition linkbust_join :: "string list \<Rightarrow> string" where
  "linkbust_join linkbust =
     js_join ((if ''RANDOM'' \<in> set linkbust then [''RANDOM''] else [])
              @ (if ''CACHEBUST'' \<in> set linkbust then [''CACHEBUST''] else [])
              @ (if ''CAPITALS'' \<in> set linkbust then [''CAPITALS''] else [])) ''|''"

datatype 'a step = Throws error | Responds response | Value 'a

text \<open>
  Lines 246 to 269. A truthy \<^verbatim>\<open>linkbust\<close> that is an object but no array has no
  \<^verbatim>\<open>map\<close>: the call throws.
\<close>

definition linkbustList :: "json option \<Rightarrow> string option step" where
  "linkbustList lb =
     (case lb of
        None \<Rightarrow> Value None
      | Some v \<Rightarrow>
          if \<not> truthy v then Value None
          else if \<not> typeof_object v
          then Responds (JsonError 400 ''The `linkbust` parameter must be an array.'')
          else (case v of
                  JArr xs \<Rightarrow>
                    (case map_toUpperCase xs of
                       Inl e \<Rightarrow> Throws e
                     | Inr linkbust \<Rightarrow> Value (Some (linkbust_join linkbust)))
                | _ \<Rightarrow> Throws TypeError))"

text \<open>The object handed to \<^verbatim>\<open>knex("shortlinks").insert\<close>.\<close>

record shortlink_insert =
  i_code :: json
  i_method :: string
  i_data :: "string option"
  i_destination :: json
  i_linkbust :: "string option"

text \<open>
  The handler returns its response, or the error it throws, and the inserts it has
  dispatched (none or one). A truthy \<^verbatim>\<open>method\<close> that is not a string has no
  \<^verbatim>\<open>toUpperCase\<close>.
\<close>

definition post_l ::
  "'u platform \<Rightarrow> (nat \<Rightarrow> nat) \<Rightarrow> nat \<Rightarrow> body \<Rightarrow> (error + response) \<times> shortlink_insert list" where
  "post_l P rnd pos b =
     (let code = (case b_code b of
                    None \<Rightarrow> JStr (fst (rs 5 rnd pos))
                  | Some c \<Rightarrow> if truthy c then c else JStr (fst (rs 5 rnd pos)))
      in if \<not> truthy_opt (b_method b)
         then (Inr (JsonError 400 ''Missing `method` parameter.''), [])
         else (case b_method b of
                 Some (JStr m) \<Rightarrow>
                   if toUpperCase m \<notin> {''GET'', ''POST''}
                   then (Inr (JsonError 400
                          ''Invalid `method` parameter. The method must either be POST or GET.''), [])
                   else if \<not> truthy_opt (b_destination b)
                   then (Inr (JsonError 400 ''Missing `destination` parameter.''), [])
                   else if truthy_opt (b_data b) \<and> m = ''GET''
                   then (Inr (JsonError 400 ''A method of `GET` cannot contain form-data.''), [])
                   else if truthy_opt (b_data b) \<and> \<not> (case b_data b of Some d \<Rightarrow> typeof_object d | None \<Rightarrow> False)
                   then (Inr (JsonError 400 ''The `data` parameter must be a key-value object.''), [])
                   else (case linkbustList (b_linkbust b) of
                           Throws e \<Rightarrow> (Inl e, [])
                         | Responds r \<Rightarrow> (Inr r, [])
                         | Value l \<Rightarrow>
                             (Inr (JsonCreated ''Shortlink creation in progress.'' code),
                              [\<lparr>i_code = code,
                                i_method = toUpperCase m,
                                i_data = (case b_data b of
                                            None \<Rightarrow> None
                                          | Some d \<Rightarrow> if truthy d then Some (json_stringify P d) else None),
                                i_destination = (case b_destination b of Some d \<Rightarrow> d | None \<Rightarrow> JNull),
                                i_linkbust = l\<rparr>]))
               | _ \<Rightarrow> (Inl TypeError, [])))"

section \<open>Session issuance in \<^verbatim>\<open>POST /login\<close> (richer version, lines 357 to 435)\<close>

record login_body =
  email :: "string option"
  password :: "string option"

record login_result =
  lr_response :: "error + response"
  lr_db :: database
  lr_cookie :: "string option"
  lr_session_user :: "user option"

text \<open>
  Lines 388 to 398: \<^verbatim>\<open>validSession\<close>.
\<close>

definition validSession :: "database \<Rightarrow> request \<Rightarrow> user \<Rightarrow> bool" where
  "validSession db req usr =
     (case cookies_sessionId req of
        None \<Rightarrow> False
      | Some c \<Rightarrow>
          if c = [] then False
          else (case first (filter (\<lambda>s. s_id s = c) (sessions db)) of
                  None \<Rightarrow> False
                | Some currentSession \<Rightarrow> s_user_id currentSession = u_id usr))"

text \<open>
  Lines 402 to 427, with \<open>sessionId\<close> the value \<^verbatim>\<open>uuidv4()\<close> returns and \<open>sessions_of\<close>
  the query \<^verbatim>\<open>knex("sessions").where("user_id", user.id)\<close>. The column
  \<^verbatim>\<open>id\<close> of \<^verbatim>\<open>sessions\<close> and of \<^verbatim>\<open>saved_sessions\<close> is a primary key
  and the column \<^verbatim>\<open>user_agent\<close> of both is \<^verbatim>\<open>NOT NULL\<close> (\<^verbatim>\<open>src/authcord.sql\<close>): an
  insert of an id already stored, or of a row whose \<^verbatim>\<open>user_agent\<close> is \<^verbatim>\<open>undefined\<close>
  because the request has no such header (\<^verbatim>\<open>useNullAsDefault\<close> in
  \<^verbatim>\<open>src/libs/database.js\<close> sends it as \<^verbatim>\<open>NULL\<close>), is rejected and the awaited call
  throws, the writes made before it staying in place.
  \<^verbatim>\<open>orderBy("id", "ASC")\<close> sorts the session ids as strings.
\<close>

definition sessions_of :: "database \<Rightarrow> int \<Rightarrow> session list" where
  "sessions_of db uid = filter (\<lambda>s. s_user_id s = uid) (sessions db)"

text \<open>Lines 404 to 410: the eviction.\<close>

definition evict :: "database \<Rightarrow> user \<Rightarrow> database" where
  "evict db usr =
     (let currentSessions = sort_key s_id (sessions_of db (u_id usr))
      in if length currentSessions = 5
         then (case currentSessions of
                 [] \<Rightarrow> db
               | lastSession # _ \<Rightarrow>
                   db\<lparr>sessions :=
                        filter (\<lambda>s. \<not> (s_user_id s = u_id usr \<and> s_id s = s_id lastSession))
                          (sessions db)\<rparr>)
         else db)"

definition issue_session ::
  "string \<Rightarrow> database \<Rightarrow> request \<Rightarrow> user \<Rightarrow> error option \<times> database \<times> string option" where
  "issue_session sessionId db req usr =
     (if \<not> truthy_str (cookies_sessionId req) \<and> \<not> validSession db req usr
      then (let db1 = evict db usr
            in case user_agent req of
                 None \<Rightarrow> (Some DbError, db1, None)
               | Some agent \<Rightarrow>
                   if sessionId \<in> s_id ` set (sessions db1) then (Some DbError, db1, None)
                   else (let db2 = db1\<lparr>sessions := sessions db1 @
                                     [\<lparr>s_id = sessionId, s_user_id = u_id usr, s_user_agent = agent\<rparr>]\<rparr>
                         in if sessionId \<in> ss_id ` set (saved_sessions db2)
                            then (Some DbError, db2, None)
                            else (None,
                                  db2\<lparr>saved_sessions := saved_sessions db2 @
                                       [\<lparr>ss_id = sessionId, ss_user_id = u_id usr,
                                         ss_user_agent = agent, ss_ip_address = ip req\<rparr>]\<rparr>,
                                  Some sessionId)))
      else (None, db, None))"

definition login_error :: "database \<Rightarrow> string \<Rightarrow> login_result" where
  "login_error db msg =
     \<lparr>lr_response = Inr (RenderError 400 ''login.handlebars'' msg), lr_db = db,
      lr_cookie = None, lr_session_user = None\<rparr>"

definition post_login ::
  "'u platform \<Rightarrow> string \<Rightarrow> database \<Rightarrow> request \<Rightarrow> login_body \<Rightarrow> login_result" where
  "post_login P sessionId db req b =
     (if \<not> truthy_str (email b) then login_error db ''Missing email address.''
      else if \<not> truthy_str (password b) then login_error db ''Missing password.''
      else (case first (filter (\<lambda>u. Some (u_email u) = email b) (users db)) of
              None \<Rightarrow> login_error db ''User does not exist.''
            | Some usr \<Rightarrow>
                if \<not> (case password b of Some pw \<Rightarrow> bcrypt_compare P pw (u_password usr) | None \<Rightarrow> False)
                then login_error db ''Invalid password.''
                else (case issue_session sessionId db req usr of
                        (Some e, db', cookie) \<Rightarrow>
                          \<lparr>lr_response = Inl e, lr_db = db', lr_cookie = None,
                           lr_session_user = None\<rparr>
                      | (None, db', cookie) \<Rightarrow>
                          \<lparr>lr_response = Inr (Redirect ''/''), lr_db = db', lr_cookie = cookie,
                           lr_session_user = Some usr\<rparr>)))"

section \<open>Comparing two runs of the trust middleware\<close>


section \<open>The linkbust order as the specification words it\<close>

text \<open>
  Written from the specification, not from the code: the fixed priority sequence
  \<^verbatim>\<open>RANDOM\<close>, \<^verbatim>\<open>CACHEBUST\<close>, \<^verbatim>\<open>CAPITALS\<close>, restricted to the techniques that occur in the
  submitted array when case is ignored.
\<close>

definition spec_linkbust_order :: "string list \<Rightarrow> string list" where
  "spec_linkbust_order names =
     filter (\<lambda>t. t \<in> toUpperCase ` set names) [''RANDOM'', ''CACHEBUST'', ''CAPITALS'']"

text \<open>
  Written from the specification again: each technique present is applied, in the fixed
  order \<^verbatim>\<open>RANDOM\<close>, \<^verbatim>\<open>CACHEBUST\<close>, \<^verbatim>\<open>CAPITALS\<close>, each on the output of the previous
  one; the three transforms themselves are the code's.
\<close>

definition spec_linkbust_apply ::
  "'u platform \<Rightarrow> string list \<Rightarrow> string \<Rightarrow> (nat \<Rightarrow> nat) \<Rightarrow> nat \<Rightarrow> error + string \<times> nat" where
  "spec_linkbust_apply P names destination rnd pos =
     (let (d1, p1) = (if ''RANDOM'' \<in> toUpperCase ` set names
                      then random_loop rnd 0 destination pos else (destination, pos))
      in case (if ''CACHEBUST'' \<in> toUpperCase ` set names
               then cachebust P d1 rnd p1 else Inr (d1, p1)) of
           Inl e \<Rightarrow> Inl e
         | Inr (d2, p2) \<Rightarrow>
             Inr (if ''CAPITALS'' \<in> toUpperCase ` set names
                  then capitals d2 rnd p2 else (d2, p2)))"

section \<open>Example data\<close>

text \<open>
  A small platform and database on which the handlers are run below. The platform's
  \<open>url_new\<close> accepts the texts that start with \<^verbatim>\<open>http://\<close> or \<^verbatim>\<open>https://\<close>.
\<close>

definition example_platform :: "string platform" where
  "example_platform =
     \<lparr>url_new = (\<lambda>s. if take 7 s = ''http://'' \<or> take 8 s = ''https://'' then Some s else None),
      url_searchParams_append = (\<lambda>u k v. u @ ''?'' @ k @ ''='' @ v),
      url_href = (\<lambda>u. u),
      json_parse = (\<lambda>s. if s = ''{}'' then Some (JObj []) else None),
      json_stringify = (\<lambda>j. ''{}''),
      bcrypt_compare = (\<lambda>pw h. h = ''hash:'' @ pw)\<rparr>"

definition ann :: user where
  "ann = \<lparr>u_id = 1, u_email = ''ann@example.com'', u_member = 1, u_password = ''hash:secret''\<rparr>"

definition bob :: user where
  "bob = \<lparr>u_id = 2, u_email = ''bob@example.com'', u_member = 0, u_password = ''hash:hunter2''\<rparr>"

definition example_shortlinks :: "shortlink list" where
  "example_shortlinks =
     [\<lparr>sl_id = 1, sl_code = ''promo'', sl_method = ''GET'', sl_data = None, sl_linkbust = None,
       sl_destination = ''https://example.com/old''\<rparr>,
      \<lparr>sl_id = 3, sl_code = ''promo'', sl_method = ''GET'', sl_data = None, sl_linkbust = None,
       sl_destination = ''https://example.com/new''\<rparr>,
      \<lparr>sl_id = 2, sl_code = ''form'', sl_method = ''POST'', sl_data = Some ''{}'', sl_linkbust = None,
       sl_destination = ''https://example.com/submit''\<rparr>,
      \<lparr>sl_id = 4, sl_code = ''bust'', sl_method = ''GET'', sl_data = None,
       sl_linkbust = Some ''RANDOM|CACHEBUST'', sl_destination = ''example.com/%RAN%''\<rparr>,
      \<lparr>sl_id = 5, sl_code = ''three'', sl_method = ''GET'', sl_data = None,
       sl_linkbust = Some ''RANDOM'', sl_destination = ''https://example.com/%RAN%/%RAN%/%RAN%''\<rparr>]"

definition example_db :: database where
  "example_db =
     \<lparr>users = [ann, bob],
      sessions = [\<lparr>s_id = ''s-ann'', s_user_id = 1, s_user_agent = ''curl''\<rparr>,
                  \<lparr>s_id = ''s-bob'', s_user_id = 2, s_user_agent = ''curl''\<rparr>],
      saved_sessions = [],
      ips = [\<lparr>ip_user_id = 1, ip_address = ''10.0.0.1''\<rparr>,
             \<lparr>ip_user_id = 2, ip_address = ''10.0.0.2''\<rparr>],
      shortlinks = example_shortlinks,
      outbound = [],
      dynamic_urls = []\<rparr>"

definition example_body :: body where
  "example_body =
     \<lparr>b_code = Some (JStr ''promo''), b_method = Some (JStr ''get''),
      b_destination = Some (JStr ''https://example.com''), b_data = None,
      b_linkbust = Some (JArr (map JStr [''capitals'', ''zzz'', ''Random'', ''RANDOM'']))\<rparr>"

text \<open>Ann's five sessions, listed in the order they were created.\<close>

definition five_sessions_db :: database where
  "five_sessions_db =
     example_db\<lparr>sessions := map (\<lambda>i. \<lparr>s_id = i, s_user_id = 1, s_user_agent = ''curl''\<rparr>)
                                [''e1'', ''d2'', ''c3'', ''b4'', ''a5'']\<rparr>"

definition example_request :: request where
  "example_request =
     \<lparr>session_user = None, cookies_sessionId = None, ip = ''10.0.0.1'',
      user_agent = Some ''curl'', params_code = ''promo''\<rparr>"

section \<open>The tiers of the trust middleware\<close>







section \<open>The cookie and address tiers\<close>

lemma first_None_iff: "first xs = None \<longleftrightarrow> xs = []"
  by (cases xs) (simp_all add: first_def)

lemma first_filter_None: "first (filter Q xs) = None \<longleftrightarrow> (\<forall>x\<in>set xs. \<not> Q x)"
  by (simp add: first_None_iff filter_empty_conv)

lemma first_filter_Some:
  assumes "first (filter Q xs) = Some x"
  shows "x \<in> set xs \<and> Q x"
proof -
  from assms obtain rest where "filter Q xs = x # rest"
    by (auto simp: first_def split: list.splits)
  then have "x \<in> set (filter Q xs)" by simp
  then show ?thesis by simp
qed

lemma session_join_None:
  assumes "\<forall>s\<in>set (sessions db). s_id s \<noteq> c"
  shows "session_join db c = None"
proof -
  have "filter (\<lambda>s. s_id s = c) (sessions db) = []"
    using assms by (simp add: filter_empty_conv)
  then show ?thesis by (simp add: session_join_def first_def)
qed

lemma ip_join_first_grant:
  assumes "filter (\<lambda>g. Some (ip_address g) = a) (ips db) = g # gs"
    and "filter (\<lambda>u. u_id u = ip_user_id g) (users db) = u # us"
  shows "ip_join db a = Some (u, g)"
  using assms by (simp add: ip_join_def first_def)

lemma ip_tier_richer_effects:
  "queries (snd (ip_tier_richer db req st)) = queries st @ [IpQuery (ip_or_null req)]"
  "cleared_cookie (snd (ip_tier_richer db req st)) = cleared_cookie st"
  by (cases "ip_join db (ip_or_null req)"; simp add: ip_tier_richer_def Let_def split: prod.splits)+

lemma ip_tier_richer_Next:
  "fst (ip_tier_richer db req st) = Next \<longleftrightarrow>
     (\<exists>u g. ip_join db (ip_or_null req) = Some (u, g) \<and> u_member u \<noteq> 0)"
  by (cases "ip_join db (ip_or_null req)"; simp add: ip_tier_richer_def Let_def split: prod.splits)

lemma ip_tier_richer_fields:
  "fst (ip_tier_richer db req st) = Next \<Longrightarrow>
     method_name (snd (ip_tier_richer db req st)) = Some ''IP'' \<and>
     method_value (snd (ip_tier_richer db req st)) = Some (TextValue (ip req))"
  by (cases "ip_join db (ip_or_null req)"; simp add: ip_tier_richer_def Let_def split: prod.splits if_splits)

lemma ip_tier_simplified_effects:
  "queries (snd (ip_tier_simplified db req st)) = queries st @ [IpQuery (Some (ip req))]"
  "cleared_cookie (snd (ip_tier_simplified db req st)) = cleared_cookie st"
  by (cases "first (filter (\<lambda>g. ip_address g = ip req) (ips db))"; simp add: ip_tier_simplified_def Let_def)+

lemma ip_tier_simplified_Next:
  "fst (ip_tier_simplified db req st) = Next \<longleftrightarrow> (\<exists>g\<in>set (ips db). ip_address g = ip req)"
proof (cases "first (filter (\<lambda>g. ip_address g = ip req) (ips db))")
  case None
  then show ?thesis using first_filter_None[of "\<lambda>g. ip_address g = ip req" "ips db"]
    by (simp add: ip_tier_simplified_def Let_def)
next
  case (Some g)
  then show ?thesis using first_filter_Some[OF Some]
    by (auto simp: ip_tier_simplified_def Let_def)
qed

lemma ip_tier_simplified_fields:
  "fst (ip_tier_simplified db req st) = Next \<Longrightarrow>
     method_name (snd (ip_tier_simplified db req st)) = Some ''IP'' \<and>
     method_value (snd (ip_tier_simplified db req st)) = Some (TextValue (ip req))"
  by (cases "first (filter (\<lambda>g. ip_address g = ip req) (ips db))"; simp add: ip_tier_simplified_def Let_def)

text \<open>
  A cookie whose value is the empty text is falsy: the cookie tier is skipped, no
  session query is issued and nothing is cleared.
\<close>

lemma empty_cookie_not_cleared:
  assumes "session_user req = None" and "cookies_sessionId req = Some []"
  shows "\<not> cleared_cookie (snd (trust_richer db req))"
    and "queries (snd (trust_richer db req)) = [IpQuery (ip_or_null req)]"
    and "\<not> cleared_cookie (snd (trust_simplified db req))"
    and "queries (snd (trust_simplified db req)) = [IpQuery (Some (ip req))]"
  using assms ip_tier_richer_effects[of db req init_state]
    ip_tier_simplified_effects[of db req init_state]
  by (simp_all add: trust_richer_def cookie_tier_richer_def trust_simplified_def
      cookie_tier_simplified_def init_state_def)

text \<open>
  C2. A request with no session user whose non-empty \<^verbatim>\<open>sessionId\<close> cookie is the id of
  no row of \<^verbatim>\<open>sessions\<close>: both middleware versions call \<^verbatim>\<open>res.clearCookie\<close>, issue
  exactly two queries, the cookie lookup and then the address lookup, once each, and end
  as the address tier decides (authorized with method \<^verbatim>\<open>IP\<close> and the address as value,
  or the 401 response).
\<close>

theorem unknown_cookie_cleared:
  assumes "session_user req = None" and "cookies_sessionId req = Some c" and "c \<noteq> []"
    and "\<forall>s\<in>set (sessions db). s_id s \<noteq> c"
  shows "cleared_cookie (snd (trust_richer db req)) \<and>
         queries (snd (trust_richer db req)) = [SessionQuery c, IpQuery (ip_or_null req)] \<and>
         (fst (trust_richer db req) = Next \<longleftrightarrow>
            (\<exists>u g. ip_join db (ip_or_null req) = Some (u, g) \<and> u_member u \<noteq> 0)) \<and>
         (fst (trust_richer db req) = Next \<longrightarrow>
            method_name (snd (trust_richer db req)) = Some ''IP'' \<and>
            method_value (snd (trust_richer db req)) = Some (TextValue (ip req))) \<and>
         cleared_cookie (snd (trust_simplified db req)) \<and>
         queries (snd (trust_simplified db req)) = [SessionQuery c, IpQuery (Some (ip req))] \<and>
         (fst (trust_simplified db req) = Next \<longleftrightarrow> (\<exists>g\<in>set (ips db). ip_address g = ip req)) \<and>
         (fst (trust_simplified db req) = Next \<longrightarrow>
            method_name (snd (trust_simplified db req)) = Some ''IP'' \<and>
            method_value (snd (trust_simplified db req)) = Some (TextValue (ip req)))"
proof -
  let ?st = "init_state\<lparr>queries := queries init_state @ [SessionQuery c], cleared_cookie := True\<rparr>"
  have q: "queries ?st = [SessionQuery c]" "cleared_cookie ?st" by (simp_all add: init_state_def)
  have r: "trust_richer db req = ip_tier_richer db req ?st"
    using assms session_join_None[OF assms(4)]
    by (simp add: trust_richer_def cookie_tier_richer_def Let_def)
  have "first (filter (\<lambda>s. s_id s = c) (sessions db)) = None"
    unfolding first_filter_None using assms(4) by simp
  then have s: "trust_simplified db req = ip_tier_simplified db req ?st"
    using assms by (simp add: trust_simplified_def cookie_tier_simplified_def Let_def)
  show ?thesis
    unfolding r s
    using ip_tier_richer_effects[of db req ?st] ip_tier_richer_Next[of db req ?st]
      ip_tier_richer_fields[of db req ?st] ip_tier_simplified_effects[of db req ?st]
      ip_tier_simplified_Next[of db req ?st] ip_tier_simplified_fields[of db req ?st] q
    by simp
qed

theorem unknown_cookie_cleared_witness:
  "session_user (example_request\<lparr>cookies_sessionId := Some ''stale''\<rparr>) = None \<and>
   cookies_sessionId (example_request\<lparr>cookies_sessionId := Some ''stale''\<rparr>) = Some ''stale'' \<and>
   map s_id (sessions example_db) = [''s-ann'', ''s-bob''] \<and>
   cleared_cookie (snd (trust_richer example_db (example_request\<lparr>cookies_sessionId := Some ''stale''\<rparr>))) \<and>
   queries (snd (trust_richer example_db (example_request\<lparr>cookies_sessionId := Some ''stale''\<rparr>))) =
     [SessionQuery ''stale'', IpQuery (Some ''10.0.0.1'')] \<and>
   cleared_cookie (snd (trust_simplified example_db (example_request\<lparr>cookies_sessionId := Some ''stale''\<rparr>))) \<and>
   queries (snd (trust_simplified example_db (example_request\<lparr>cookies_sessionId := Some ''stale''\<rparr>))) =
     [SessionQuery ''stale'', IpQuery (Some ''10.0.0.1'')] \<and>
   fst (trust_simplified example_db (example_request\<lparr>cookies_sessionId := Some ''stale''\<rparr>)) = Next"
proof -
  let ?req = "example_request\<lparr>cookies_sessionId := Some ''stale''\<rparr>"
  have 1: "session_user ?req = None" by (simp add: example_request_def)
  have 2: "cookies_sessionId ?req = Some ''stale''" by simp
  have 3: "''stale'' \<noteq> []" by simp
  have 4: "\<forall>s\<in>set (sessions example_db). s_id s \<noteq> ''stale''" by (simp add: example_db_def)
  have 5: "ip ?req = ''10.0.0.1''" "ip_or_null ?req = Some ''10.0.0.1''"
    by (simp_all add: example_request_def ip_or_null_def)
  have 6: "\<exists>g\<in>set (ips example_db). ip_address g = ''10.0.0.1''" by (simp add: example_db_def)
  have 7: "map s_id (sessions example_db) = [''s-ann'', ''s-bob'']" by (simp add: example_db_def)
  show ?thesis
    using unknown_cookie_cleared[OF 1 2 3 4] 1 2 5 6 7 by simp
qed


section \<open>Shortlink resolution\<close>

lemma first_Some_hd: "first xs = Some x \<Longrightarrow> xs \<noteq> [] \<and> x = hd xs"
  by (cases xs) (simp_all add: first_def)

lemma sort_key_Nil_iff: "sort_key f xs = [] \<longleftrightarrow> xs = []"
  using length_sort[of f xs] by (metis length_0_conv)

lemma select_shortlink_None:
  "select_shortlink table code = None \<longleftrightarrow> (\<forall>row\<in>set table. sl_code row \<noteq> code)"
  by (simp add: select_shortlink_def first_None_iff sort_key_Nil_iff filter_empty_conv)

lemma select_shortlink_Some:
  assumes "select_shortlink table code = Some r"
  shows "r \<in> set table \<and> sl_code r = code \<and>
         (\<forall>row\<in>set table. sl_code row = code \<longrightarrow> sl_id row \<le> sl_id r)"
proof -
  let ?m = "filter (\<lambda>row. sl_code row = code) table"
  let ?s = "sort_key (\<lambda>row. - sl_id row) ?m"
  from assms have ne: "?s \<noteq> []" and r: "r = hd ?s"
    using first_Some_hd[of ?s r] by (simp_all add: select_shortlink_def)
  then have "r \<in> set ?s" using hd_in_set by blast
  then have mem: "r \<in> set ?m" by simp
  have sorted: "sorted (map (\<lambda>row. - sl_id row) ?s)" by (rule sorted_sort_key)
  have "\<forall>row\<in>set ?s. - sl_id r \<le> - sl_id row"
  proof
    fix row assume "row \<in> set ?s"
    from ne obtain y ys where ys: "?s = y # ys" by (cases ?s) auto
    with r have "r = y" by simp
    with ys sorted \<open>row \<in> set ?s\<close> show "- sl_id r \<le> - sl_id row" by auto
  qed
  then have "\<forall>row\<in>set ?m. sl_id row \<le> sl_id r" by simp
  with mem show ?thesis by simp
qed

lemma select_shortlink_unique:
  assumes "set table' = set table" and "inj_on sl_id (set table)"
  shows "select_shortlink table' code = select_shortlink table code"
proof (cases "select_shortlink table code")
  case None
  then show ?thesis using assms(1) select_shortlink_None[of table code]
      select_shortlink_None[of table' code] by simp
next
  case (Some r)
  then have "\<not> (\<forall>row\<in>set table'. sl_code row \<noteq> code)"
    using select_shortlink_Some[OF Some] assms(1) by auto
  then obtain r' where r': "select_shortlink table' code = Some r'"
    using select_shortlink_None[of table' code] by (cases "select_shortlink table' code") auto
  have "sl_id r' \<le> sl_id r" "sl_id r \<le> sl_id r'" "r \<in> set table" "r' \<in> set table"
    using select_shortlink_Some[OF Some] select_shortlink_Some[OF r'] assms(1) by auto
  then have "r' = r" using assms(2) by (auto dest: inj_onD)
  with r' Some show ?thesis by simp
qed

lemma resolve_richer_404:
  "fst (resolve_richer P rnd pos db req st outbound_ok dynamic_ok) = Inr (Render 200 ''404.handlebars'')
     \<longleftrightarrow> select_shortlink (shortlinks db) (params_code req) = None"
proof (cases "select_shortlink (shortlinks db) (params_code req)")
  case None
  then show ?thesis by (simp add: resolve_richer_def Let_def)
next
  case (Some sl)
  show ?thesis
  proof (cases "apply_techniques P (techniques_of (sl_linkbust sl)) (sl_destination sl) rnd pos")
    case (Inl e)
    with Some show ?thesis by (simp add: resolve_richer_def Let_def)
  next
    case (Inr dp)
    obtain d p where "dp = (d, p)" by (cases dp)
    with Some Inr show ?thesis
      by (simp add: resolve_richer_def Let_def deliver_def split: option.splits)
  qed
qed

lemma resolve_richer_response:
  "fst (resolve_richer P rnd pos db req st outbound_ok dynamic_ok) =
     (case select_shortlink (shortlinks db) (params_code req) of
        None \<Rightarrow> Inr (Render 200 ''404.handlebars'')
      | Some sl \<Rightarrow>
          (case apply_techniques P (techniques_of (sl_linkbust sl)) (sl_destination sl) rnd pos of
             Inl e \<Rightarrow> Inl e
           | Inr (destination, pos') \<Rightarrow> deliver P sl destination))"
  by (simp add: resolve_richer_def Let_def split: option.splits sum.splits prod.splits)

lemma resolve_simplified_404:
  "fst (resolve_simplified P db req st True) = Inr (Render 200 ''404.handlebars'')
     \<longleftrightarrow> select_shortlink (shortlinks db) (params_code req) = None"
  by (cases "select_shortlink (shortlinks db) (params_code req)")
     (simp_all add: resolve_simplified_def Let_def deliver_def split: option.splits)

text \<open>
  C3. The shortlink lookup returns no row exactly when no stored row has the code;
  otherwise it returns a stored row of that code whose id is greatest among the rows of
  that code. With ids unique (the primary key) the result depends only on the set of
  stored rows, not on their order. The handler renders the not-found view exactly when
  no row has the code.
\<close>

theorem select_shortlink_greatest_id:
  "(select_shortlink table code = None \<longleftrightarrow> (\<forall>row\<in>set table. sl_code row \<noteq> code)) \<and>
   (\<forall>r. select_shortlink table code = Some r \<longrightarrow>
        r \<in> set table \<and> sl_code r = code \<and>
        (\<forall>row\<in>set table. sl_code row = code \<longrightarrow> sl_id row \<le> sl_id r)) \<and>
   (\<forall>table'. set table' = set table \<and> distinct (map sl_id table) \<longrightarrow>
        select_shortlink table' code = select_shortlink table code) \<and>
   (fst (resolve_richer P rnd pos db req st outbound_ok dynamic_ok) = Inr (Render 200 ''404.handlebars'')
      \<longleftrightarrow> (\<forall>row\<in>set (shortlinks db). sl_code row \<noteq> params_code req)) \<and>
   (fst (resolve_simplified P db req st True) = Inr (Render 200 ''404.handlebars'')
      \<longleftrightarrow> (\<forall>row\<in>set (shortlinks db). sl_code row \<noteq> params_code req))"
proof (intro conjI allI impI)
  show "select_shortlink table code = None \<longleftrightarrow> (\<forall>row\<in>set table. sl_code row \<noteq> code)"
    by (rule select_shortlink_None)
next
  fix r assume "select_shortlink table code = Some r"
  then show "r \<in> set table" and "sl_code r = code"
    and "\<forall>row\<in>set table. sl_code row = code \<longrightarrow> sl_id row \<le> sl_id r"
    using select_shortlink_Some[of table code r] by simp_all
next
  fix table' assume "set table' = set table \<and> distinct (map sl_id table)"
  then show "select_shortlink table' code = select_shortlink table code"
    using select_shortlink_unique[of table' table code] by (simp add: distinct_map)
next
  show "fst (resolve_richer P rnd pos db req st outbound_ok dynamic_ok) = Inr (Render 200 ''404.handlebars'')
      \<longleftrightarrow> (\<forall>row\<in>set (shortlinks db). sl_code row \<noteq> params_code req)"
    unfolding resolve_richer_404 by (rule select_shortlink_None)
next
  show "fst (resolve_simplified P db req st True) = Inr (Render 200 ''404.handlebars'')
      \<longleftrightarrow> (\<forall>row\<in>set (shortlinks db). sl_code row \<noteq> params_code req)"
    unfolding resolve_simplified_404 by (rule select_shortlink_None)
qed

theorem select_shortlink_greatest_id_witness:
  "select_shortlink example_shortlinks ''promo'' =
     Some \<lparr>sl_id = 3, sl_code = ''promo'', sl_method = ''GET'', sl_data = None, sl_linkbust = None,
           sl_destination = ''https://example.com/new''\<rparr> \<and>
   map sl_id (filter (\<lambda>row. sl_code row = ''promo'') example_shortlinks) = [1, 3] \<and>
   distinct (map sl_id example_shortlinks) \<and>
   select_shortlink (rev example_shortlinks) ''promo'' = select_shortlink example_shortlinks ''promo'' \<and>
   select_shortlink example_shortlinks ''nothing'' = None \<and>
   filter (\<lambda>row. sl_code row = ''nothing'') example_shortlinks = [] \<and>
   fst (resolve_richer example_platform (\<lambda>k. k) 0 example_db (example_request\<lparr>params_code := ''nothing''\<rparr>)
          init_state True True) = Inr (Render 200 ''404.handlebars'')"
proof -
  have 1: "select_shortlink example_shortlinks ''promo'' =
     Some \<lparr>sl_id = 3, sl_code = ''promo'', sl_method = ''GET'', sl_data = None, sl_linkbust = None,
           sl_destination = ''https://example.com/new''\<rparr>"
    by (simp add: select_shortlink_def example_shortlinks_def first_def)
  have 2: "distinct (map sl_id example_shortlinks)" by (simp add: example_shortlinks_def)
  have 3: "set (rev example_shortlinks) = set example_shortlinks" by simp
  have 4: "\<forall>row\<in>set example_shortlinks. sl_code row \<noteq> ''nothing''"
    by (simp add: example_shortlinks_def)
  have 5: "shortlinks example_db = example_shortlinks" by (simp add: example_db_def)
  note T = select_shortlink_greatest_id[of example_shortlinks "''promo''" example_platform "\<lambda>k. k" 0
        example_db "example_request\<lparr>params_code := ''nothing''\<rparr>" init_state True True]
  have 6: "\<forall>row\<in>set example_shortlinks. sl_code row = ''promo'' \<longrightarrow> sl_id row \<le> 3"
    using T[THEN conjunct2, THEN conjunct1, rule_format, OF 1] by simp
  have 7: "select_shortlink (rev example_shortlinks) ''promo'' = select_shortlink example_shortlinks ''promo''"
    using T[THEN conjunct2, THEN conjunct2, THEN conjunct1, rule_format, of "rev example_shortlinks"] 2 3
    by blast
  have 8: "fst (resolve_richer example_platform (\<lambda>k. k) 0 example_db (example_request\<lparr>params_code := ''nothing''\<rparr>)
          init_state True True) = Inr (Render 200 ''404.handlebars'')"
    using T[THEN conjunct2, THEN conjunct2, THEN conjunct2, THEN conjunct1] 4 5 by simp
  have 9: "select_shortlink example_shortlinks ''nothing'' = None"
    using select_shortlink_greatest_id[of example_shortlinks "''nothing''" example_platform "\<lambda>k. k" 0
        example_db "example_request\<lparr>params_code := ''nothing''\<rparr>" init_state True True, THEN conjunct1] 4
    by blast
  have 10: "map sl_id (filter (\<lambda>row. sl_code row = ''promo'') example_shortlinks) = [1, 3]"
    "filter (\<lambda>row. sl_code row = ''nothing'') example_shortlinks = []"
    by (simp_all add: example_shortlinks_def)
  show ?thesis using 1 2 7 8 9 10 by blast
qed


section \<open>Linkbust normalisation at creation\<close>

lemma map_toUpperCase_strings: "map_toUpperCase (map JStr names) = Inr (map toUpperCase names)"
  by (induction names) simp_all

lemma linkbust_join_spec:
  "linkbust_join (map toUpperCase names) = js_join (spec_linkbust_order names) ''|''"
  by (simp add: linkbust_join_def spec_linkbust_order_def)

lemma techniques_of_join:
  "techniques_of (Some (js_join (filter Q [''RANDOM'', ''CACHEBUST'', ''CAPITALS'']) ''|'')) =
     filter Q [''RANDOM'', ''CACHEBUST'', ''CAPITALS'']"
  by (cases "Q ''RANDOM''"; cases "Q ''CACHEBUST''"; cases "Q ''CAPITALS''")
     (simp_all add: techniques_of_def js_join_def js_split.simps)

lemma linkbustList_strings:
  "linkbustList (Some (JArr (map JStr names))) =
     Value (Some (js_join (spec_linkbust_order names) ''|''))"
  by (simp add: linkbustList_def map_toUpperCase_strings linkbust_join_spec)

lemma spec_linkbust_order_set:
  "set names' = set names \<Longrightarrow> spec_linkbust_order names' = spec_linkbust_order names"
  by (simp add: spec_linkbust_order_def)


lemma post_l_insert_linkbust:
  assumes "ins \<in> set (snd (post_l P rnd pos b))"
  shows "linkbustList (b_linkbust b) = Value (i_linkbust ins)"
proof (cases "b_method b")
  case None
  with assms show ?thesis by (simp add: post_l_def truthy_opt_def)
next
  case (Some v)
  show ?thesis
  proof (cases v)
    case (JStr m)
    show ?thesis
    proof (cases "linkbustList (b_linkbust b)")
      case (Value l)
      with assms Some JStr show ?thesis
        by (simp add: post_l_def Let_def split: if_splits)
    next
      case (Throws e)
      with assms Some JStr show ?thesis
        by (simp add: post_l_def Let_def split: if_splits)
    next
      case (Responds r)
      with assms Some JStr show ?thesis
        by (simp add: post_l_def Let_def split: if_splits)
    qed
  qed (use assms Some in \<open>simp_all add: post_l_def Let_def split: if_splits\<close>)
qed

lemma toUpperCase_Nil_iff: "toUpperCase m = [] \<longleftrightarrow> m = []"
  by (simp add: toUpperCase_def)

lemma post_l_accepts:
  assumes "b_method b = Some (JStr m)" and "toUpperCase m \<in> {''GET'', ''POST''}"
    and "truthy_opt (b_destination b)"
    and "\<not> truthy_opt (b_data b) \<or> (m \<noteq> ''GET'' \<and> (\<exists>d. b_data b = Some d \<and> typeof_object d))"
    and "linkbustList (b_linkbust b) = Value l"
  shows "\<exists>ins. post_l P rnd pos b =
           (Inr (JsonCreated ''Shortlink creation in progress.'' (i_code ins)), [ins]) \<and>
         i_method ins = toUpperCase m \<and> Some (i_destination ins) = b_destination b \<and>
         i_data ins = (case b_data b of
                         None \<Rightarrow> None
                       | Some d \<Rightarrow> if truthy d then Some (json_stringify P d) else None) \<and>
         i_linkbust ins = l"
proof -
  have "m \<noteq> []" using assms(2) toUpperCase_Nil_iff[of m] by auto
  then have "truthy_opt (b_method b)" using assms(1) by (simp add: truthy_opt_def)
  moreover obtain d where "b_destination b = Some d" using assms(3)
    by (cases "b_destination b") (simp_all add: truthy_opt_def)
  ultimately show ?thesis using assms
    by (auto simp: post_l_def Let_def)
qed


text \<open>
  Outside arrays of strings: an array element that is not a string, or an object that is
  no array, makes the handler throw; a non-empty string gets the 400 response.
\<close>

lemma linkbustList_not_a_string:
  "linkbustList (Some (JArr (JNum n # rest))) = Throws TypeError"
  "linkbustList (Some (JObj kvs)) = Throws TypeError"
  "linkbustList (Some (JStr (c # cs))) =
     Responds (JsonError 400 ''The `linkbust` parameter must be an array.'')"
  by (simp_all add: linkbustList_def)

text \<open>
  The transform loop on the priority sequence: it runs \<^verbatim>\<open>RANDOM\<close>, then \<^verbatim>\<open>CACHEBUST\<close> on
  the result, then \<^verbatim>\<open>CAPITALS\<close> on that result, each only if present, and stops at a
  throw.
\<close>

lemma apply_techniques_priority:
  "apply_techniques P (filter Q [''RANDOM'', ''CACHEBUST'', ''CAPITALS'']) d rnd pos =
     (let (d1, p1) = (if Q ''RANDOM'' then random_loop rnd 0 d pos else (d, pos))
      in case (if Q ''CACHEBUST'' then cachebust P d1 rnd p1 else Inr (d1, p1)) of
           Inl e \<Rightarrow> Inl e
         | Inr (d2, p2) \<Rightarrow> Inr (if Q ''CAPITALS'' then capitals d2 rnd p2 else (d2, p2)))"
  by (cases "Q ''RANDOM''"; cases "Q ''CACHEBUST''"; cases "Q ''CAPITALS''")
     (simp_all add: apply_technique_def split: prod.splits sum.splits)

lemma apply_techniques_spec:
  "apply_techniques P (spec_linkbust_order names) d rnd pos = spec_linkbust_apply P names d rnd pos"
  unfolding spec_linkbust_order_def spec_linkbust_apply_def by (rule apply_techniques_priority)


text \<open>
  C4. For a creation request whose \<^verbatim>\<open>linkbust\<close> is an array of strings, the text the
  handler stores is the specification's priority sequence (\<^verbatim>\<open>RANDOM\<close>, \<^verbatim>\<open>CACHEBUST\<close>,
  \<^verbatim>\<open>CAPITALS\<close>, restricted to the names present when upper-cased, each once), joined by
  \<^verbatim>\<open>|\<close>; every insert the handler dispatches carries it, and a request with a valid
  method and destination and no data dispatches one; splitting the stored text at
  resolution gives that sequence back; and an array with the same elements in another
  order or multiplicity stores the same text. Names that are not techniques are dropped
  and nothing is thrown. At resolution the transform loop, run on the stored text,
  computes what the specification's pipeline computes: the techniques present, applied
  in the order \<^verbatim>\<open>RANDOM\<close>, \<^verbatim>\<open>CACHEBUST\<close>, \<^verbatim>\<open>CAPITALS\<close>, each on the output of the
  previous one; and the resolver handler, on a shortlink that carries the stored text,
  delivers the destination so transformed.
\<close>

theorem linkbust_stored_in_priority_order:
  assumes "b_linkbust b = Some (JArr (map JStr names))"
  shows "linkbustList (b_linkbust b) = Value (Some (js_join (spec_linkbust_order names) ''|'')) \<and>
         techniques_of (Some (js_join (spec_linkbust_order names) ''|'')) = spec_linkbust_order names \<and>
         (\<forall>ins\<in>set (snd (post_l P rnd pos b)).
            i_linkbust ins = Some (js_join (spec_linkbust_order names) ''|'') \<and>
            techniques_of (i_linkbust ins) = spec_linkbust_order names) \<and>
         (\<forall>m. b_method b = Some (JStr m) \<and> toUpperCase m \<in> {''GET'', ''POST''} \<and>
              truthy_opt (b_destination b) \<and> \<not> truthy_opt (b_data b) \<longrightarrow>
              (\<exists>ins. snd (post_l P rnd pos b) = [ins])) \<and>
         (\<forall>names'. set names' = set names \<longrightarrow>
              linkbustList (Some (JArr (map JStr names'))) = linkbustList (b_linkbust b)) \<and>
         (\<forall>ins\<in>set (snd (post_l P rnd pos b)). \<forall>d rnd' pos'.
            apply_techniques P (techniques_of (i_linkbust ins)) d rnd' pos' =
              spec_linkbust_apply P names d rnd' pos') \<and>
         (\<forall>ins\<in>set (snd (post_l P rnd pos b)). \<forall>db req st sl rnd' pos' outbound_ok dynamic_ok.
            select_shortlink (shortlinks db) (params_code req) = Some sl \<and>
            sl_linkbust sl = i_linkbust ins \<longrightarrow>
            fst (resolve_richer P rnd' pos' db req st outbound_ok dynamic_ok) =
              (case spec_linkbust_apply P names (sl_destination sl) rnd' pos' of
                 Inl e \<Rightarrow> Inl e
               | Inr (destination, pos'') \<Rightarrow> deliver P sl destination))"
proof -
  have l: "linkbustList (b_linkbust b) = Value (Some (js_join (spec_linkbust_order names) ''|''))"
    using assms by (simp add: linkbustList_strings)
  have t: "techniques_of (Some (js_join (spec_linkbust_order names) ''|'')) = spec_linkbust_order names"
    unfolding spec_linkbust_order_def by (rule techniques_of_join)
  have i: "i_linkbust ins = Some (js_join (spec_linkbust_order names) ''|'')"
    if "ins \<in> set (snd (post_l P rnd pos b))" for ins
  proof -
    from that have "linkbustList (b_linkbust b) = Value (i_linkbust ins)"
      by (rule post_l_insert_linkbust)
    with l show ?thesis by simp
  qed
  have a: "apply_techniques P (techniques_of (i_linkbust ins)) d rnd' pos' =
             spec_linkbust_apply P names d rnd' pos'"
    if "ins \<in> set (snd (post_l P rnd pos b))" for ins d rnd' pos'
    using i[OF that] t by (simp add: apply_techniques_spec)
  have r: "fst (resolve_richer P rnd' pos' db req st outbound_ok dynamic_ok) =
              (case spec_linkbust_apply P names (sl_destination sl) rnd' pos' of
                 Inl e \<Rightarrow> Inl e
               | Inr (destination, pos'') \<Rightarrow> deliver P sl destination)"
    if "ins \<in> set (snd (post_l P rnd pos b))"
      and "select_shortlink (shortlinks db) (params_code req) = Some sl \<and>
           sl_linkbust sl = i_linkbust ins"
    for ins db req st sl rnd' pos' outbound_ok dynamic_ok
    using that(2) a[OF that(1)] by (simp add: resolve_richer_response)
  have m: "\<exists>ins. snd (post_l P rnd pos b) = [ins]"
    if "b_method b = Some (JStr m) \<and> toUpperCase m \<in> {''GET'', ''POST''} \<and>
        truthy_opt (b_destination b) \<and> \<not> truthy_opt (b_data b)" for m
    using that post_l_accepts[of b m "Some (js_join (spec_linkbust_order names) ''|'')" P rnd pos] l
    by auto
  have n: "linkbustList (Some (JArr (map JStr names'))) = linkbustList (b_linkbust b)"
    if "set names' = set names" for names' :: "string list"
    using that l spec_linkbust_order_set[of names' names] by (simp add: linkbustList_strings)
  show ?thesis
  proof (intro conjI ballI allI impI)
    show "linkbustList (b_linkbust b) = Value (Some (js_join (spec_linkbust_order names) ''|''))"
      by (rule l)
    show "techniques_of (Some (js_join (spec_linkbust_order names) ''|'')) = spec_linkbust_order names"
      by (rule t)
  qed (use i t m n a r in \<open>simp_all\<close>)
qed


theorem linkbust_stored_in_priority_order_witness:
  "b_linkbust example_body = Some (JArr (map JStr [''capitals'', ''zzz'', ''Random'', ''RANDOM''])) \<and>
   snd (post_l example_platform (\<lambda>k. k) 0 example_body) =
     [\<lparr>i_code = JStr ''promo'', i_method = ''GET'', i_data = None,
       i_destination = JStr ''https://example.com'', i_linkbust = Some ''RANDOM|CAPITALS''\<rparr>] \<and>
   techniques_of (Some ''RANDOM|CAPITALS'') = [''RANDOM'', ''CAPITALS''] \<and>
   linkbustList (Some (JArr (map JStr [''RANDOM'', ''Random'', ''zzz'', ''capitals'']))) =
     Value (Some ''RANDOM|CAPITALS'') \<and>
   apply_techniques example_platform (techniques_of (Some ''RANDOM|CAPITALS''))
     ''https://example.com/%RAN%'' (\<lambda>k. k) 0 = Inr (''HtTpS://ExAmPlE.CoM/AbCdE'', 30) \<and>
   apply_techniques example_platform [''CAPITALS'', ''RANDOM'']
     ''https://example.com/%RAN%'' (\<lambda>k. k) 0 = Inr (''hTtPs://eXaMpLe.cOm/%RaN%'', 30) \<and>
   fst (resolve_richer example_platform (\<lambda>k. k) 0
          (example_db\<lparr>shortlinks :=
             [\<lparr>sl_id = 6, sl_code = ''promo'', sl_method = ''GET'', sl_data = None,
               sl_linkbust = Some ''RANDOM|CAPITALS'',
               sl_destination = ''https://example.com/%RAN%''\<rparr>]\<rparr>)
          example_request init_state True True) =
     Inr (Redirect ''HtTpS://ExAmPlE.CoM/AbCdE'')"
proof -
  let ?names = "[''capitals'', ''zzz'', ''Random'', ''RANDOM'']"
  let ?ins = "\<lparr>i_code = JStr ''promo'', i_method = ''GET'', i_data = None,
       i_destination = JStr ''https://example.com'', i_linkbust = Some ''RANDOM|CAPITALS''\<rparr>"
  let ?sl = "\<lparr>sl_id = 6, sl_code = ''promo'', sl_method = ''GET'', sl_data = None,
               sl_linkbust = Some ''RANDOM|CAPITALS'',
               sl_destination = ''https://example.com/%RAN%''\<rparr>"
  let ?db = "example_db\<lparr>shortlinks := [?sl]\<rparr>"
  have 1: "b_linkbust example_body = Some (JArr (map JStr ?names))"
    by (simp add: example_body_def)
  have 2: "spec_linkbust_order ?names = [''RANDOM'', ''CAPITALS'']"
    by (simp add: spec_linkbust_order_def toUpperCase_def toUpperCase_char_def)
  have 3: "js_join [''RANDOM'', ''CAPITALS''] ''|'' = ''RANDOM|CAPITALS''"
    by (simp add: js_join_def)
  have 4: "set [''RANDOM'', ''Random'', ''zzz'', ''capitals''] = set ?names" by auto
  note T = linkbust_stored_in_priority_order[OF 1, of example_platform "\<lambda>k. k" 0, unfolded 2 3]
  have 5: "snd (post_l example_platform (\<lambda>k. k) 0 example_body) = [?ins]"
    by (simp add: post_l_def example_body_def linkbustList_def linkbust_join_def js_join_def
        truthy_opt_def toUpperCase_def toUpperCase_char_def Let_def)
  then have mem: "?ins \<in> set (snd (post_l example_platform (\<lambda>k. k) 0 example_body))" by simp
  have 6: "linkbustList (Some (JArr (map JStr [''RANDOM'', ''Random'', ''zzz'', ''capitals'']))) =
     Value (Some ''RANDOM|CAPITALS'')"
    using T[THEN conjunct2, THEN conjunct2, THEN conjunct2, THEN conjunct2, THEN conjunct1,
        rule_format, OF 4]
      T[THEN conjunct1] by simp
  have spec: "spec_linkbust_apply example_platform ?names ''https://example.com/%RAN%'' (\<lambda>k. k) 0 =
      Inr (''HtTpS://ExAmPlE.CoM/AbCdE'', 30)"
    by code_simp
  have 7: "apply_techniques example_platform (techniques_of (Some ''RANDOM|CAPITALS''))
     ''https://example.com/%RAN%'' (\<lambda>k. k) 0 = Inr (''HtTpS://ExAmPlE.CoM/AbCdE'', 30)"
    using T[THEN conjunct2, THEN conjunct2, THEN conjunct2, THEN conjunct2, THEN conjunct2,
        THEN conjunct1, rule_format, OF mem, of "''https://example.com/%RAN%''" "\<lambda>k. k" 0] spec
    by simp
  have 8: "apply_techniques example_platform [''CAPITALS'', ''RANDOM'']
     ''https://example.com/%RAN%'' (\<lambda>k. k) 0 = Inr (''hTtPs://eXaMpLe.cOm/%RaN%'', 30)"
    by code_simp
  have sel: "select_shortlink (shortlinks ?db) (params_code example_request) = Some ?sl \<and>
             sl_linkbust ?sl = i_linkbust ?ins"
    by (simp add: select_shortlink_def first_def example_request_def)
  have 9: "fst (resolve_richer example_platform (\<lambda>k. k) 0 ?db example_request init_state True True) =
     Inr (Redirect ''HtTpS://ExAmPlE.CoM/AbCdE'')"
    using T[THEN conjunct2, THEN conjunct2, THEN conjunct2, THEN conjunct2, THEN conjunct2,
        THEN conjunct2, rule_format, OF mem sel] spec
    by (simp add: deliver_def)
  show ?thesis using 1 5 6 7 8 9 T[THEN conjunct2, THEN conjunct1] by simp
qed


section \<open>How many placeholders the \<^verbatim>\<open>RANDOM\<close> loop replaces\<close>

text \<open>
  Every replacement removes one piece of the split while the counter goes up by one, so
  the loop that starts at 0 on a destination of \<open>n\<close> pieces (that is, \<open>n - 1\<close>
  placeholders) ends on \<open>n div 2\<close> pieces: of \<open>k \<ge> 1\<close> placeholders it replaces
  \<open>k div 2 + 1\<close>.
\<close>

lemma js_split_length_None:
  "p \<noteq> [] \<Longrightarrow> indexOf_split p s = None \<Longrightarrow> length (js_split s p) = 1"
  by (subst js_split.simps) simp

lemma js_split_length_Some:
  "p \<noteq> [] \<Longrightarrow> indexOf_split p s = Some (a, b) \<Longrightarrow> length (js_split s p) = Suc (length (js_split b p))"
  by (subst js_split.simps) simp

lemma js_split_length_pos: "p \<noteq> [] \<Longrightarrow> 1 \<le> length (js_split s p)"
proof (cases "indexOf_split p s")
  case None
  assume "p \<noteq> []"
  then have "length (js_split s p) = 1" using None by (rule js_split_length_None)
  then show ?thesis by linarith
next
  case (Some ab)
  assume "p \<noteq> []"
  then have "length (js_split s p) = Suc (length (js_split (snd ab) p))"
    using Some js_split_length_Some[of p s "fst ab" "snd ab"] by simp
  then show ?thesis by linarith
qed

lemma js_split_length_ge2:
  assumes "p \<noteq> []" and "indexOf_split p s = Some ab"
  shows "2 \<le> length (js_split s p)"
proof -
  have "length (js_split s p) = Suc (length (js_split (snd ab) p))"
    using assms js_split_length_Some[of p s "fst ab" "snd ab"] by simp
  moreover have "1 \<le> length (js_split (snd ab) p)" using assms(1) by (rule js_split_length_pos)
  ultimately show ?thesis by linarith
qed

lemma loop_bound_arith:
  fixes i n :: nat
  assumes "i < n" and "2 \<le> n"
  shows "(if Suc i < n - 1 then (if n - 1 = 1 then 1 else (n - 1) - ((n - 1) - Suc i + 1) div 2) else n - 1) =
           n - (n - i + 1) div 2"
proof (cases "Suc i < n - 1")
  case True
  then have "n - i + 1 = ((n - 1) - Suc i + 1) + 2" by linarith
  then have "(n - i + 1) div 2 = ((n - 1) - Suc i + 1) div 2 + 1" by simp
  then have "(n - 1) - ((n - 1) - Suc i + 1) div 2 = n - (n - i + 1) div 2" by simp
  moreover have "n - 1 \<noteq> 1" using True by linarith
  ultimately show ?thesis using True by simp
next
  case False
  with assms have "n - i + 1 = 2 \<or> n - i + 1 = 3" by linarith
  then have "(n - i + 1) div 2 = 1" by auto
  with False show ?thesis by simp
qed

lemma sub_upper_half: "(n::nat) - (n + 1) div 2 = n div 2"
proof -
  have "n = n div 2 + (n + 1) div 2" by linarith
  then show ?thesis by linarith
qed

lemma pieces_replace:
  "pieces (js_replace d ''%RAN%'' (fst (rs 5 rnd pos))) = (if pieces d = 1 then 1 else pieces d - 1)"
proof (cases "indexOf_split ''%RAN%'' d")
  case None
  then show ?thesis
    using js_split_length_None[of "''%RAN%''" d] by (simp add: pieces_def js_replace_def)
next
  case (Some ab)
  then show ?thesis
    using js_split_replace_length[of "''%RAN%''" "fst (rs 5 rnd pos)" d]
      rs_no_percent[of 5 rnd pos] rs_length[of 5 rnd pos]
      js_split_length_ge2[of "''%RAN%''" d ab]
    by (simp add: pieces_def)
qed

lemma pieces_pos: "1 \<le> pieces d"
  unfolding pieces_def by (rule js_split_length_pos) simp

lemma random_loop_pieces:
  "pieces (fst (random_loop rnd i d pos)) =
     (if i < pieces d then (if pieces d = 1 then 1 else pieces d - (pieces d - i + 1) div 2)
      else pieces d)"
proof (induction rnd i d pos rule: random_loop.induct)
  case (1 rnd i d pos)
  show ?case
  proof (cases "i < pieces d")
    case False
    then show ?thesis by (subst random_loop.simps) (simp add: pieces_def)
  next
    case True
    obtain ran pos' where r: "rs 5 rnd pos = (ran, pos')" by (cases "rs 5 rnd pos")
    then have ran: "ran = fst (rs 5 rnd pos)" by simp
    let ?d' = "js_replace d ''%RAN%'' ran"
    have step: "random_loop rnd i d pos = random_loop rnd (Suc i) ?d' pos'"
      using True r by (subst random_loop.simps) (simp add: pieces_def)
    have IH: "pieces (fst (random_loop rnd (Suc i) ?d' pos')) =
       (if Suc i < pieces ?d'
        then (if pieces ?d' = 1 then 1 else pieces ?d' - (pieces ?d' - Suc i + 1) div 2)
        else pieces ?d')"
      using "1.IH"[OF _ r[symmetric] refl] True by (simp add: pieces_def)
    have p': "pieces ?d' = (if pieces d = 1 then 1 else pieces d - 1)"
      unfolding ran by (rule pieces_replace)
    show ?thesis
    proof (cases "pieces d = 1")
      case one: True
      then have "pieces ?d' = 1" using p' by simp
      then show ?thesis unfolding step IH using one True by simp
    next
      case False
      with pieces_pos[of d] have n: "2 \<le> pieces d" by linarith
      have eq: "pieces ?d' = pieces d - 1" using p' False by simp
      have rhs: "(if i < pieces d
                  then (if pieces d = 1 then 1 else pieces d - (pieces d - i + 1) div 2)
                  else pieces d) = pieces d - (pieces d - i + 1) div 2"
        using True False by simp
      show ?thesis
        unfolding step IH eq rhs by (rule loop_bound_arith[OF True n])
    qed
  qed
qed

lemma random_loop_halves:
  "pieces (fst (random_loop rnd 0 d pos)) = (if pieces d = 1 then 1 else pieces d div 2)"
  using random_loop_pieces[of rnd 0 d pos] pieces_pos[of d] sub_upper_half[of "pieces d"] by simp

section \<open>The \<^verbatim>\<open>RANDOM\<close> transform on three placeholders\<close>

text \<open>
  C5. The claim is that \<^verbatim>\<open>RANDOM\<close> replaces every occurrence of \<^verbatim>\<open>%RAN%\<close>. The loop
  compares its counter with the number of pieces of the destination as already changed,
  so the bound falls while the counter rises: on a destination with three placeholders
  the loop stops after two replacements, and the handler redirects to a URL that still
  holds the third placeholder.
\<close>

theorem random_leaves_third_placeholder:
  "apply_technique example_platform ''RANDOM'' ''https://example.com/%RAN%/%RAN%/%RAN%'' (\<lambda>k. k) 0 =
     Inr (''https://example.com/ABCDE/FGHIJ/%RAN%'', 10) \<and>
   fst (resolve_richer example_platform (\<lambda>k. k) 0 example_db (example_request\<lparr>params_code := ''three''\<rparr>)
          init_state True True) =
     Inr (Redirect ''https://example.com/ABCDE/FGHIJ/%RAN%'')"
  by code_simp

section \<open>Creation with a lower-case \<^verbatim>\<open>get\<close> and form data\<close>

text \<open>
  C6. The method is validated through \<^verbatim>\<open>toUpperCase\<close>, but the test that forbids data
  compares the method as submitted with \<^verbatim>\<open>"GET"\<close>: the method \<^verbatim>\<open>get\<close> with a data
  object is accepted and queued for insertion with method \<^verbatim>\<open>GET\<close> and the data, where
  the same request with \<^verbatim>\<open>GET\<close> gets the 400 response.
\<close>

theorem lowercase_get_with_data_accepted:
  "post_l example_platform (\<lambda>k. k) 0
     (example_body\<lparr>b_data := Some (JObj [(''a'', JStr ''b'')]), b_linkbust := None\<rparr>) =
     (Inr (JsonCreated ''Shortlink creation in progress.'' (JStr ''promo'')),
      [\<lparr>i_code = JStr ''promo'', i_method = ''GET'', i_data = Some ''{}'',
        i_destination = JStr ''https://example.com'', i_linkbust = None\<rparr>]) \<and>
   post_l example_platform (\<lambda>k. k) 0
     (example_body\<lparr>b_method := Some (JStr ''GET''), b_data := Some (JObj [(''a'', JStr ''b'')]),
                    b_linkbust := None\<rparr>) =
     (Inr (JsonError 400 ''A method of `GET` cannot contain form-data.''), [])"
  by code_simp

section \<open>Session issuance: what holds\<close>

text \<open>
  Whenever the request carries a non-empty cookie nothing is issued. Issuance keeps
  every user at five sessions or fewer, and only ever appends to \<^verbatim>\<open>saved_sessions\<close>.
\<close>

lemma issue_session_cookie_present:
  "truthy_str (cookies_sessionId req) \<Longrightarrow> issue_session sessionId db req usr = (None, db, None)"
  by (simp add: issue_session_def)

lemma evict_saved_sessions: "saved_sessions (evict db usr) = saved_sessions db"
  by (simp add: evict_def Let_def split: list.splits)

lemma filter_drops_one:
  assumes "x \<in> set xs" and "P x" and "\<not> Q x"
  shows "length (filter P (filter Q xs)) < length (filter P xs)"
proof -
  have "filter P (filter Q xs) = filter Q (filter P xs)" by (simp add: conj_commute)
  moreover have "x \<in> set (filter P xs)" using assms by simp
  ultimately show ?thesis using assms(3) length_filter_less[of x "filter P xs" Q] by simp
qed

lemma evict_sessions_le: "length (sessions_of (evict db usr) uid) \<le> length (sessions_of db uid)"
proof -
  have "length (filter P (filter Q xs)) \<le> length (filter P xs)" for P Q and xs :: "session list"
    by (induction xs) auto
  then show ?thesis by (simp add: evict_def sessions_of_def Let_def split: list.splits)
qed

lemma evict_five:
  assumes "length (sessions_of db (u_id usr)) = 5"
  shows "length (sessions_of (evict db usr) (u_id usr)) < 5"
proof -
  let ?cs = "sort_key s_id (sessions_of db (u_id usr))"
  have len: "length ?cs = 5" using assms by simp
  then obtain lastSession rest where cs: "?cs = lastSession # rest" by (cases ?cs) auto
  then have "lastSession \<in> set ?cs" by simp
  then have mem: "lastSession \<in> set (sessions db)" "s_user_id lastSession = u_id usr"
    by (simp_all add: sessions_of_def)
  have ev: "evict db usr = db\<lparr>sessions :=
      filter (\<lambda>s. \<not> (s_user_id s = u_id usr \<and> s_id s = s_id lastSession)) (sessions db)\<rparr>"
    using len cs by (simp add: evict_def Let_def)
  show ?thesis
    unfolding ev sessions_of_def
    using filter_drops_one[of lastSession "sessions db" "\<lambda>s. s_user_id s = u_id usr"
        "\<lambda>s. \<not> (s_user_id s = u_id usr \<and> s_id s = s_id lastSession)"] mem assms
    by (simp add: sessions_of_def)
qed

lemma issue_session_cap:
  assumes "\<forall>uid. length (sessions_of db uid) \<le> 5"
  shows "length (sessions_of (fst (snd (issue_session sessionId db req usr))) uid) \<le> 5"
proof -
  have e: "length (sessions_of (evict db usr) uid) \<le> 5"
    using evict_sessions_le[of db usr uid] assms by (meson le_trans)
  have e4: "length (sessions_of (evict db usr) (u_id usr)) < 5"
  proof (cases "length (sessions_of db (u_id usr)) = 5")
    case True
    then show ?thesis by (rule evict_five)
  next
    case False
    with assms have "length (sessions_of db (u_id usr)) < 5" by (simp add: le_neq_implies_less)
    then show ?thesis using evict_sessions_le[of db usr "u_id usr"] by linarith
  qed
  have ins: "length (sessions_of ((evict db usr)\<lparr>sessions := sessions (evict db usr) @ [row]\<rparr>) uid) \<le> 5"
    if "s_user_id row = u_id usr" for row
    using e e4 that by (cases "uid = u_id usr") (simp_all add: sessions_of_def)
  show ?thesis
    using assms e ins by (simp add: issue_session_def Let_def sessions_of_def split: option.splits)
qed

lemma issue_session_saved_sessions:
  "\<exists>new. saved_sessions (fst (snd (issue_session sessionId db req usr))) = saved_sessions db @ new"
  by (simp add: issue_session_def Let_def evict_saved_sessions split: option.splits)

section \<open>Login with a cookie that is bound to no session\<close>

text \<open>
  C7. With valid credentials and a \<^verbatim>\<open>sessionId\<close> cookie that is the id of no session,
  the handler computes \<^verbatim>\<open>validSession = false\<close> and then creates nothing: the guard
  \<^verbatim>\<open>!req.cookies.sessionId && !validSession\<close> is false whenever a cookie is present. No
  session row is inserted, no cookie is set, the database is unchanged.
\<close>

theorem login_with_unknown_cookie_issues_nothing:
  "post_login example_platform ''n7'' example_db (example_request\<lparr>cookies_sessionId := Some ''stale''\<rparr>)
     \<lparr>email = Some ''ann@example.com'', password = Some ''secret''\<rparr> =
     \<lparr>lr_response = Inr (Redirect ''/''), lr_db = example_db, lr_cookie = None,
      lr_session_user = Some ann\<rparr> \<and>
   first (filter (\<lambda>s. s_id s = ''stale'') (sessions example_db)) = None"
  by code_simp

section \<open>The sixth login\<close>

text \<open>
  C8. Ann holds five sessions, created in the order \<^verbatim>\<open>e1\<close>, \<^verbatim>\<open>d2\<close>, \<^verbatim>\<open>c3\<close>, \<^verbatim>\<open>b4\<close>,
  \<^verbatim>\<open>a5\<close>. Her next login sorts them by id and deletes the first, \<^verbatim>\<open>a5\<close>, the session
  created last; the session created first, \<^verbatim>\<open>e1\<close>, stays.
\<close>

theorem sixth_login_evicts_newest:
  "map s_id (sessions (lr_db (post_login example_platform ''f6'' five_sessions_db example_request
     \<lparr>email = Some ''ann@example.com'', password = Some ''secret''\<rparr>))) =
     [''e1'', ''d2'', ''c3'', ''b4'', ''f6''] \<and>
   map s_id (sessions five_sessions_db) = [''e1'', ''d2'', ''c3'', ''b4'', ''a5'']"
  by code_simp

section \<open>Audit writes and the response\<close>

text \<open>
  What a rejected audit insert does. In the richer version, where unhandled rejections
  throw, a rejected outbound insert ends the process with nothing delivered, and a
  rejected \<^verbatim>\<open>dynamic_urls\<close> insert ends it whenever the handler got as far as sending
  it; with no rejection the handler's result stands. In the simplified version a
  rejected outbound insert makes the handler throw with nothing written, and no run
  writes a \<^verbatim>\<open>dynamic_urls\<close> row.
\<close>

lemma serve_richer_rejected_outbound:
  "serve_richer ThrowMode P rnd pos db req st False dynamic_ok = (Inl UnhandledRejection, db, True)"
  by (simp add: serve_richer_def)

lemma serve_richer_rejected_dynamic:
  "snd (snd (serve_richer ThrowMode P rnd pos db req st True False)) =
     dynamic_dispatched P rnd pos db req"
  by (simp add: serve_richer_def split: prod.splits)

lemma serve_richer_no_rejection:
  "serve_richer mode P rnd pos db req st True True =
     (fst (resolve_richer P rnd pos db req st True True),
      snd (resolve_richer P rnd pos db req st True True), False)"
  by (simp add: serve_richer_def split: prod.splits)

lemma resolve_simplified_rejected_outbound:
  "resolve_simplified P db req st False = (Inl DbError, db)"
  by (simp add: resolve_simplified_def)

lemma resolve_simplified_no_dynamic_urls:
  "dynamic_urls (snd (resolve_simplified P db req st outbound_ok)) = dynamic_urls db"
  by (simp add: resolve_simplified_def Let_def split: option.splits)

text \<open>
  C9. The claim is that, for every authorized request, a failing audit write never
  blocks or fails the response and its error is swallowed. A request from a granted
  address with no \<^verbatim>\<open>User-Agent\<close> header is authorized by both versions, and its outbound
  insert is rejected (\<^verbatim>\<open>user_agent\<close> is \<^verbatim>\<open>NOT NULL\<close>). In the richer version nothing
  catches the rejection: where unhandled rejections throw, the process exits and no
  response is delivered. In the simplified version the insert is awaited: the handler
  throws before it looks the shortlink up. The same request with a \<^verbatim>\<open>User-Agent\<close> and a
  successful insert is redirected by both.
\<close>

theorem audit_write_failure_fails_response:
  "fst (trust_richer example_db (example_request\<lparr>user_agent := None\<rparr>)) = Next \<and>
   serve_richer ThrowMode example_platform (\<lambda>k. k) 0 example_db
     (example_request\<lparr>user_agent := None\<rparr>)
     (snd (trust_richer example_db (example_request\<lparr>user_agent := None\<rparr>))) False True =
     (Inl UnhandledRejection, example_db, True) \<and>
   fst (serve_richer ThrowMode example_platform (\<lambda>k. k) 0 example_db example_request
     (snd (trust_richer example_db example_request)) True True) =
     Inr (Redirect ''https://example.com/new'') \<and>
   fst (trust_simplified example_db (example_request\<lparr>user_agent := None\<rparr>)) = Next \<and>
   resolve_simplified example_platform example_db (example_request\<lparr>user_agent := None\<rparr>)
     (snd (trust_simplified example_db (example_request\<lparr>user_agent := None\<rparr>))) False =
     (Inl DbError, example_db) \<and>
   fst (resolve_simplified example_platform example_db example_request
     (snd (trust_simplified example_db example_request)) True) =
     Inr (Redirect ''https://example.com/new'')"
  by code_simp


section \<open>\<^verbatim>\<open>CACHEBUST\<close> on a destination that is no URL\<close>

lemma spec_linkbust_order_cachebust:
  assumes "''CACHEBUST'' \<in> toUpperCase ` set names"
  shows "spec_linkbust_order names =
           (if ''RANDOM'' \<in> toUpperCase ` set names then [''RANDOM''] else []) @
           ''CACHEBUST'' # (if ''CAPITALS'' \<in> toUpperCase ` set names then [''CAPITALS''] else [])"
  using assms by (simp add: spec_linkbust_order_def)

lemma apply_techniques_cachebust_throws:
  assumes "url_new P (if r then fst (random_loop rnd 0 d pos) else d) = None"
  shows "apply_techniques P ((if r then [''RANDOM''] else []) @ ''CACHEBUST'' # rest) d rnd pos =
           Inl TypeError"
proof (cases r)
  case True
  obtain d' pos' where rl: "random_loop rnd 0 d pos = (d', pos')" by (cases "random_loop rnd 0 d pos")
  with assms True have "url_new P d' = None" by simp
  with True rl show ?thesis by (simp add: apply_technique_def cachebust_def)
next
  case False
  with assms show ?thesis by (simp add: apply_technique_def cachebust_def)
qed

text \<open>
  In general, whatever techniques come first: when they leave a text the constructor
  rejects, a following \<^verbatim>\<open>CACHEBUST\<close> throws.
\<close>

lemma apply_techniques_append:
  "apply_techniques P (pre @ post) d rnd pos =
     (case apply_techniques P pre d rnd pos of
        Inl e \<Rightarrow> Inl e
      | Inr (d', pos') \<Rightarrow> apply_techniques P post d' rnd pos')"
proof (induction pre arbitrary: d pos)
  case Nil
  then show ?case by simp
next
  case (Cons t pre)
  show ?case
  proof (cases "apply_technique P t d rnd pos")
    case (Inl e)
    then show ?thesis by simp
  next
    case (Inr dp)
    obtain d1 p1 where "dp = (d1, p1)" by (cases dp)
    with Inr Cons.IH[of d1 p1] show ?thesis by simp
  qed
qed

lemma cachebust_after_prefix_throws:
  assumes "apply_techniques P pre d rnd pos = Inr (d', pos')" and "url_new P d' = None"
  shows "apply_techniques P (pre @ ''CACHEBUST'' # post) d rnd pos = Inl TypeError"
  using assms by (simp add: apply_techniques_append apply_technique_def cachebust_def)

text \<open>
  C10. A stored shortlink whose linkbust text is one the creation handler writes and
  names \<^verbatim>\<open>CACHEBUST\<close>: when the destination, after the \<^verbatim>\<open>RANDOM\<close> replacement if
  \<^verbatim>\<open>RANDOM\<close> is named too, is a text the \<^verbatim>\<open>URL\<close> constructor rejects, the resolver
  handler throws the constructor's \<^verbatim>\<open>TypeError\<close>: it delivers no redirect and no view
  and writes no \<^verbatim>\<open>dynamic_urls\<close> row. And the creation handler queues any non-empty
  destination text for insertion with that linkbust text, whatever the constructor would
  say of it: it never calls the constructor.
\<close>

theorem cachebust_unparseable_destination_throws:
  "(select_shortlink (shortlinks db) (params_code req) = Some sl \<and>
    sl_linkbust sl = Some (js_join (spec_linkbust_order names) ''|'') \<and>
    ''CACHEBUST'' \<in> toUpperCase ` set names \<and>
    url_new P (if ''RANDOM'' \<in> toUpperCase ` set names
               then fst (random_loop rnd 0 (sl_destination sl) pos)
               else sl_destination sl) = None
    \<longrightarrow> fst (resolve_richer P rnd pos db req st outbound_ok dynamic_ok) = Inl TypeError \<and>
        dynamic_urls (snd (resolve_richer P rnd pos db req st outbound_ok dynamic_ok)) = dynamic_urls db) \<and>
   (b_method b = Some (JStr m) \<and> toUpperCase m \<in> {''GET'', ''POST''} \<and>
    b_destination b = Some (JStr d) \<and> d \<noteq> [] \<and> \<not> truthy_opt (b_data b) \<and>
    b_linkbust b = Some (JArr (map JStr names))
    \<longrightarrow> (\<exists>ins. post_l P rnd pos b =
                 (Inr (JsonCreated ''Shortlink creation in progress.'' (i_code ins)), [ins]) \<and>
               i_destination ins = JStr d \<and>
               i_linkbust ins = Some (js_join (spec_linkbust_order names) ''|'')))"
proof (intro conjI impI)
  assume a: "select_shortlink (shortlinks db) (params_code req) = Some sl \<and>
    sl_linkbust sl = Some (js_join (spec_linkbust_order names) ''|'') \<and>
    ''CACHEBUST'' \<in> toUpperCase ` set names \<and>
    url_new P (if ''RANDOM'' \<in> toUpperCase ` set names
               then fst (random_loop rnd 0 (sl_destination sl) pos)
               else sl_destination sl) = None"
  then have t: "techniques_of (sl_linkbust sl) = spec_linkbust_order names"
    using techniques_of_join[of "\<lambda>t. t \<in> toUpperCase ` set names"]
    by (simp add: spec_linkbust_order_def)
  have "apply_techniques P (techniques_of (sl_linkbust sl)) (sl_destination sl) rnd pos = Inl TypeError"
    unfolding t using a spec_linkbust_order_cachebust[of names]
      apply_techniques_cachebust_throws[of P "''RANDOM'' \<in> toUpperCase ` set names" rnd "sl_destination sl" pos]
    by simp
  with a show "fst (resolve_richer P rnd pos db req st outbound_ok dynamic_ok) = Inl TypeError"
    and "dynamic_urls (snd (resolve_richer P rnd pos db req st outbound_ok dynamic_ok)) = dynamic_urls db"
    by (simp_all add: resolve_richer_def Let_def)
next
  assume a: "b_method b = Some (JStr m) \<and> toUpperCase m \<in> {''GET'', ''POST''} \<and>
    b_destination b = Some (JStr d) \<and> d \<noteq> [] \<and> \<not> truthy_opt (b_data b) \<and>
    b_linkbust b = Some (JArr (map JStr names))"
  then have "truthy_opt (b_destination b)" by (simp add: truthy_opt_def)
  moreover have "linkbustList (b_linkbust b) = Value (Some (js_join (spec_linkbust_order names) ''|''))"
    using a by (simp add: linkbustList_strings)
  ultimately show "\<exists>ins. post_l P rnd pos b =
                 (Inr (JsonCreated ''Shortlink creation in progress.'' (i_code ins)), [ins]) \<and>
               i_destination ins = JStr d \<and>
               i_linkbust ins = Some (js_join (spec_linkbust_order names) ''|'')"
    using a post_l_accepts[of b m "Some (js_join (spec_linkbust_order names) ''|'')" P rnd pos]
    by auto
qed


theorem cachebust_unparseable_destination_throws_witness:
  "select_shortlink (shortlinks example_db) ''bust'' =
     Some \<lparr>sl_id = 4, sl_code = ''bust'', sl_method = ''GET'', sl_data = None,
           sl_linkbust = Some ''RANDOM|CACHEBUST'', sl_destination = ''example.com/%RAN%''\<rparr> \<and>
   fst (random_loop (\<lambda>k. k) 0 ''example.com/%RAN%'' 0) = ''example.com/ABCDE'' \<and>
   url_new example_platform ''example.com/ABCDE'' = None \<and>
   fst (resolve_richer example_platform (\<lambda>k. k) 0 example_db (example_request\<lparr>params_code := ''bust''\<rparr>)
          init_state True True) = Inl TypeError \<and>
   map (\<lambda>ins. (i_destination ins, i_linkbust ins))
     (snd (post_l example_platform (\<lambda>k. k) 0
          (example_body\<lparr>b_code := Some (JStr ''bust''), b_destination := Some (JStr ''example.com/%RAN%''),
                         b_linkbust := Some (JArr (map JStr [''cachebust'', ''random'']))\<rparr>))) =
     [(JStr ''example.com/%RAN%'', Some ''RANDOM|CACHEBUST'')]"
proof -
  let ?sl = "\<lparr>sl_id = 4, sl_code = ''bust'', sl_method = ''GET'', sl_data = None,
           sl_linkbust = Some ''RANDOM|CACHEBUST'', sl_destination = ''example.com/%RAN%''\<rparr>"
  let ?req = "example_request\<lparr>params_code := ''bust''\<rparr>"
  let ?names = "[''cachebust'', ''random'']"
  let ?b = "example_body\<lparr>b_code := Some (JStr ''bust''), b_destination := Some (JStr ''example.com/%RAN%''),
                         b_linkbust := Some (JArr (map JStr ?names))\<rparr>"
  have 1: "select_shortlink (shortlinks example_db) (params_code ?req) = Some ?sl"
    by (simp add: select_shortlink_def example_db_def example_shortlinks_def first_def)
  have 2: "spec_linkbust_order ?names = [''RANDOM'', ''CACHEBUST'']"
    by (simp add: spec_linkbust_order_def toUpperCase_def toUpperCase_char_def)
  have 3: "js_join [''RANDOM'', ''CACHEBUST''] ''|'' = ''RANDOM|CACHEBUST''"
    by (simp add: js_join_def)
  have 4: "''CACHEBUST'' \<in> toUpperCase ` set ?names" "''RANDOM'' \<in> toUpperCase ` set ?names"
    by (simp_all add: toUpperCase_def toUpperCase_char_def)
  have 5: "fst (random_loop (\<lambda>k. k) 0 ''example.com/%RAN%'' 0) = ''example.com/ABCDE''"
    by code_simp
  have 6: "url_new example_platform ''example.com/ABCDE'' = None"
    by (simp add: example_platform_def)
  have 7: "b_method ?b = Some (JStr ''get'')" "toUpperCase ''get'' \<in> {''GET'', ''POST''}"
    "b_destination ?b = Some (JStr ''example.com/%RAN%'')" "\<not> truthy_opt (b_data ?b)"
    "b_linkbust ?b = Some (JArr (map JStr ?names))" "b_code ?b = Some (JStr ''bust'')"
    by (simp_all add: example_body_def toUpperCase_def toUpperCase_char_def truthy_opt_def)
  note T = cachebust_unparseable_destination_throws[of example_db ?req ?sl ?names example_platform
      "\<lambda>k. k" 0 init_state True True ?b "''get''" "''example.com/%RAN%''"]
  have 8: "fst (resolve_richer example_platform (\<lambda>k. k) 0 example_db ?req init_state True True) =
             Inl TypeError"
    using T[THEN conjunct1] 1 2 3 4 5 6 by simp
  obtain ins where ins: "post_l example_platform (\<lambda>k. k) 0 ?b =
        (Inr (JsonCreated ''Shortlink creation in progress.'' (i_code ins)), [ins])"
      "i_destination ins = JStr ''example.com/%RAN%''" "i_linkbust ins = Some ''RANDOM|CACHEBUST''"
    using T[THEN conjunct2] 7 2 3 by auto
  have 9: "map (\<lambda>ins. (i_destination ins, i_linkbust ins))
              (snd (post_l example_platform (\<lambda>k. k) 0 ?b)) =
            [(JStr ''example.com/%RAN%'', Some ''RANDOM|CACHEBUST'')]"
    using ins by simp
  show ?thesis using 1 5 6 8 9 by simp
qed


end
